theory Spec2Isabelle
  imports Main "HOL-Library.Word"
begin

section \<open>The connection API of the GSM-AT library (gsm_conn.c)\<close>

text \<open>
  The file gsm\_conn.c is embedded as state-passing functions on a record \<open>world\<close>:
  the connection structure the handle points to, the byte buffers this layer owns, the
  depth of the core lock, and a trace of what the code does to its collaborators (the
  producer mailbox, the allocator, the timeout scheduler, the event callback).
  The collaborators are not part of gsm\_conn.c. Their answers are decided by two
  oracles carried in the world: \<open>alloc_ok\<close> answers the k-th allocation request,
  \<open>mbox_res\<close> is the status of the k-th submission to the producer mailbox.
\<close>

subsection \<open>Data\<close>

type_synonym byte = "8 word"

text \<open>The result enumeration \<open>gsmr_t\<close>: the members that the file and the specification
  name, and \<open>gsmOTHER k\<close> for any other member, which the command executor may return.\<close>

datatype gsmr_t = gsmOK | gsmERR | gsmERRMEM | gsmTIMEOUT | gsmOTHER nat

text \<open>A connection handle \<open>gsm_conn_p\<close>: the null pointer, or a pointer to the connection
  structure held in the world.\<close>

datatype gsm_conn_p = NULL | PTR

text \<open>A data pointer: null, memory of the caller (the bytes found there), or a buffer
  obtained from \<open>gsm_mem_alloc\<close> (its address).\<close>

datatype mem_ptr = MNULL | USER "byte list" | HEAP nat

text \<open>The event types of \<open>gsm_conn_get_from_evt\<close>.\<close>

datatype gsm_evt_type_t =
  GSM_EVT_NONE | GSM_EVT_CONN_ACTIVE | GSM_EVT_CONN_CLOSED | GSM_EVT_CONN_DATA_RECV
| GSM_EVT_CONN_DATA_SEND | GSM_EVT_CONN_POLL

text \<open>The connection structure: the status bit field, the validation id, the write buffer
  (\<open>buff.buff\<close>, \<open>buff.len\<close>, \<open>buff.ptr\<close>) and the fields the accessors read. The slot
  number \<open>num\<close> is an \<open>int8_t\<close>, an integer here.\<close>

record gsm_conn_t =
  num :: int
  val_id :: "8 word"
  active :: bool
  in_closing :: bool
  client :: bool
  buff :: "nat option"
  buff_len :: nat
  buff_ptr :: nat
  arg :: nat
  total_recved :: nat
  remote_ip :: nat
  remote_port :: "16 word"
  local_port :: "16 word"
  tcp_available_data :: nat

text \<open>The command envelope handed to the producer mailbox: \<open>cmd_def\<close> selects the member
  of the union \<open>msg\<close>. A send command carries the data pointer together with the bytes
  that are there when it is built, then \<open>btw\<close>, whether \<open>bw\<close> is non-null, the remote
  address and port, \<open>fau\<close> and \<open>val_id\<close>. A close command carries \<open>val_id\<close>. Of a start
  command the type, the host, the port and the user argument are kept.\<close>

datatype gsm_msg =
  GSM_CMD_CIPSEND mem_ptr "byte list" nat bool "nat option" "16 word" "8 word" "8 word"
| GSM_CMD_CIPCLOSE "8 word"
| GSM_CMD_CIPSTART nat string "16 word" nat
| GSM_CMD_CIPSTATUS

text \<open>The validation id a command carries, for the two kinds of command that carry one.\<close>

fun msg_val_id :: "gsm_msg \<Rightarrow> 8 word option" where
  "msg_val_id (GSM_CMD_CIPSEND d bs n bw ip port fau v) = Some v"
| "msg_val_id (GSM_CMD_CIPCLOSE v) = Some v"
| "msg_val_id (GSM_CMD_CIPSTART t h p a) = None"
| "msg_val_id GSM_CMD_CIPSTATUS = None"

text \<open>
  What the code does to its collaborators, in program order:
  \<^item> \<open>EvDispatch bs fau blocking\<close>: \<open>conn_send\<close> is called with the bytes \<open>bs\<close>;
  \<^item> \<open>EvBwStore\<close>: \<open>conn_send\<close> stores 0 through the pointer \<open>bw\<close>;
  \<^item> \<open>EvValRead d\<close>: the field \<open>val_id\<close> is read while the core lock has depth \<open>d\<close>;
  \<^item> \<open>EvSubmit m d blocking timeout r\<close>: the envelope \<open>m\<close> is handed to
    \<open>gsmi_send_msg_to_producer_mbox\<close> while the core lock has depth \<open>d\<close>, and the call
    returns \<open>r\<close>;
  \<^item> \<open>EvMemAllocFail\<close>: \<open>gsm_mem_alloc\<close> returns the null pointer;
  \<^item> \<open>EvMsgAllocFail\<close>: \<open>GSM_MSG_VAR_ALLOC\<close> cannot allocate the command envelope;
  \<^item> \<open>EvFree a\<close>: \<open>gsm_mem_free\<close> is called on address \<open>a\<close>;
  \<^item> \<open>EvConnCb t\<close>: \<open>gsmi_send_conn_cb\<close> delivers an event of type \<open>t\<close>;
  \<^item> \<open>EvTimeoutAdd i\<close>: \<open>gsm_timeout_add\<close> schedules \<open>conn_timeout_cb\<close> after \<open>i\<close> ms.
\<close>

datatype event =
  EvDispatch "byte list" "8 word" "32 word"
| EvBwStore
| EvValRead nat
| EvSubmit gsm_msg nat "32 word" "32 word" gsmr_t
| EvMemAllocFail
| EvMsgAllocFail
| EvFree nat
| EvConnCb gsm_evt_type_t
| EvTimeoutAdd nat

record world =
  conn :: gsm_conn_t
  conn_ptr_valid :: bool
  heap :: "nat \<Rightarrow> byte list option"
  next_addr :: nat
  lock :: nat
  fault :: bool
  alloc_ok :: "nat \<Rightarrow> bool"
  n_alloc :: nat
  mbox_res :: "nat \<Rightarrow> gsmr_t"
  n_sub :: nat
  GSM_CFG_CONN_MAX_DATA_LEN :: nat
  GSM_CFG_CONN_POLL_INTERVAL :: nat
  GSM_CFG_CONN_MANUAL_TCP_RECEIVE :: bool
  SIZE_MAX :: nat
  evt_type :: gsm_evt_type_t
  trace :: "event list"

subsection \<open>The collaborators\<close>

text \<open>Modelled from the spec: the macros \<open>GSM_CORE_PROTECT\<close> and \<open>GSM_CORE_UNPROTECT\<close>
  (section 2, the Core Lock: one global mutual-exclusion primitive, acquired and released in
  scoped pairs). They are not defined in gsm\_conn.c; the lock is a depth counter, so that
  a holder may acquire it again, as \<open>flush_buff\<close> does through \<open>conn_get_val_id\<close>.\<close>

definition GSM_CORE_PROTECT :: "world \<Rightarrow> world" where
  "GSM_CORE_PROTECT w = w\<lparr>lock := Suc (lock w)\<rparr>"

definition GSM_CORE_UNPROTECT :: "world \<Rightarrow> world" where
  "GSM_CORE_UNPROTECT w = w\<lparr>lock := lock w - 1\<rparr>"

text \<open>Modelled from the spec: the macro \<open>GSM_ASSERT\<close>, not defined in gsm\_conn.c. When its
  condition is false the enclosing function returns at once; section 7 of the specification
  lists a null pointer or a zero length among the generic errors.\<close>

definition GSM_ASSERT_fail :: gsmr_t where
  "GSM_ASSERT_fail = gsmERR"

text \<open>Modelled from the spec: \<open>allocate(size) -> buffer|null\<close> (section 6). A successful
  request returns the next unused address and the buffer of \<open>n\<close> bytes becomes owned by this
  layer; a failed one returns null.\<close>

definition gsm_mem_alloc :: "world \<Rightarrow> nat \<Rightarrow> nat option \<times> world" where
  "gsm_mem_alloc w n =
     (if alloc_ok w (n_alloc w)
      then (Some (next_addr w),
            w\<lparr>heap := (heap w)(next_addr w \<mapsto> replicate n 0),
              next_addr := Suc (next_addr w), n_alloc := Suc (n_alloc w)\<rparr>)
      else (None, w\<lparr>n_alloc := Suc (n_alloc w), trace := trace w @ [EvMemAllocFail]\<rparr>))"

text \<open>Modelled from the spec: \<open>free(buffer)\<close> (section 6). Freeing an address this layer
  does not own (freed before, or handed to the command executor) is a fault.\<close>

definition gsm_mem_free :: "world \<Rightarrow> nat \<Rightarrow> world" where
  "gsm_mem_free w a =
     (case heap w a of
        None \<Rightarrow> w\<lparr>fault := True, trace := trace w @ [EvFree a]\<rparr>
      | Some bs \<Rightarrow> w\<lparr>heap := (heap w)(a := None), trace := trace w @ [EvFree a]\<rparr>)"

text \<open>The subtraction \<open>a - b\<close> of two \<open>size_t\<close> values \<open>a, b \<le> m\<close>: it wraps around
  when \<open>b\<close> exceeds \<open>a\<close>. The width of \<open>size_t\<close> depends on the platform; \<open>m\<close> is its
  largest value, the field \<open>SIZE_MAX\<close> of the world.\<close>

definition size_sub :: "nat \<Rightarrow> nat \<Rightarrow> nat \<Rightarrow> nat" where
  "size_sub m a b = (if b \<le> a then a - b else a + Suc m - b)"

text \<open>\<open>GSM_MEMCPY(&buf[off], d, n)\<close> into an owned buffer; writing outside it is a fault.\<close>

definition GSM_MEMCPY :: "world \<Rightarrow> nat \<Rightarrow> nat \<Rightarrow> byte list \<Rightarrow> nat \<Rightarrow> world" where
  "GSM_MEMCPY w a off d n =
     (case heap w a of
        None \<Rightarrow> w\<lparr>fault := True\<rparr>
      | Some bs \<Rightarrow>
          if off + n \<le> length bs \<and> n \<le> length d
          then w\<lparr>heap := (heap w)(a \<mapsto> take off bs @ take n d @ drop (off + n) bs)\<rparr>
          else w\<lparr>fault := True\<rparr>)"

text \<open>The first \<open>n\<close> bytes a data pointer points to, in the heap \<open>h\<close>.\<close>

fun read_mem :: "(nat \<Rightarrow> byte list option) \<Rightarrow> mem_ptr \<Rightarrow> nat \<Rightarrow> byte list" where
  "read_mem h MNULL n = []"
| "read_mem h (USER bs) n = take n bs"
| "read_mem h (HEAP a) n = (case h a of None \<Rightarrow> [] | Some bs \<Rightarrow> take n bs)"

text \<open>Modelled from the spec: the macro \<open>GSM_MSG_VAR_ALLOC\<close>, not defined in gsm\_conn.c:
  the envelope is allocated, and the enclosing function returns out-of-memory when that
  fails (section 4.2: "out-of-memory for envelope allocation").\<close>

definition GSM_MSG_VAR_ALLOC :: "world \<Rightarrow> bool \<times> world" where
  "GSM_MSG_VAR_ALLOC w =
     (if alloc_ok w (n_alloc w)
      then (True, w\<lparr>n_alloc := Suc (n_alloc w)\<rparr>)
      else (False, w\<lparr>n_alloc := Suc (n_alloc w), trace := trace w @ [EvMsgAllocFail]\<rparr>))"

text \<open>Modelled from the spec: \<open>gsmi_send_msg_to_producer_mbox\<close>, the submission to the
  producer queue (sections 4.2 and 6). Its status is the oracle's. When a free-after-use
  send is accepted, the buffer belongs to the command executor from then on (section 5,
  shared-resource policy).\<close>

fun msg_fau_addr :: "gsm_msg \<Rightarrow> nat option" where
  "msg_fau_addr (GSM_CMD_CIPSEND (HEAP a) bs n bw ip port fau v) = (if fau \<noteq> 0 then Some a else None)"
| "msg_fau_addr m = None"

definition mbox_takes ::
    "gsm_msg \<Rightarrow> gsmr_t \<Rightarrow> (nat \<Rightarrow> byte list option) \<Rightarrow> (nat \<Rightarrow> byte list option)" where
  "mbox_takes m r h =
     (case msg_fau_addr m of
        None \<Rightarrow> h
      | Some a \<Rightarrow> if r = gsmOK then h(a := None) else h)"

definition gsmi_send_msg_to_producer_mbox ::
    "world \<Rightarrow> gsm_msg \<Rightarrow> 32 word \<Rightarrow> 32 word \<Rightarrow> gsmr_t \<times> world" where
  "gsmi_send_msg_to_producer_mbox w m blocking timeout =
     (let r = mbox_res w (n_sub w)
      in (r, w\<lparr>heap := mbox_takes m r (heap w), n_sub := Suc (n_sub w),
               trace := trace w @ [EvSubmit m (lock w) blocking timeout r]\<rparr>))"

text \<open>Modelled from the spec: \<open>schedule(interval_ms, callback, argument)\<close>, one-shot
  (section 6). The only callback this file schedules is \<open>conn_timeout_cb\<close>.\<close>

definition gsm_timeout_add :: "world \<Rightarrow> nat \<Rightarrow> world" where
  "gsm_timeout_add w i = w\<lparr>trace := trace w @ [EvTimeoutAdd i]\<rparr>"

text \<open>Modelled from the spec: \<open>emit(event)\<close> (section 6): the connection's callback is
  called with the global event.\<close>

definition gsmi_send_conn_cb :: "world \<Rightarrow> world" where
  "gsmi_send_conn_cb w = w\<lparr>trace := trace w @ [EvConnCb (evt_type w)]\<rparr>"

subsection \<open>The functions of gsm\_conn.c\<close>

definition conn_timeout_cb :: "world \<Rightarrow> world" where
  "conn_timeout_cb w =
     (if active (conn w)
      then gsm_timeout_add (gsmi_send_conn_cb (w\<lparr>evt_type := GSM_EVT_CONN_POLL\<rparr>))
             (GSM_CFG_CONN_POLL_INTERVAL w)
      else w)"

definition gsmi_conn_start_timeout :: "world \<Rightarrow> world" where
  "gsmi_conn_start_timeout w = gsm_timeout_add w (GSM_CFG_CONN_POLL_INTERVAL w)"

definition conn_get_val_id :: "world \<Rightarrow> 8 word \<times> world" where
  "conn_get_val_id w =
     (let w1 = GSM_CORE_PROTECT w;
          v = val_id (conn w1);
          w2 = w1\<lparr>trace := trace w1 @ [EvValRead (lock w1)]\<rparr>
      in (v, GSM_CORE_UNPROTECT w2))"

definition conn_send ::
    "world \<Rightarrow> gsm_conn_p \<Rightarrow> nat option \<Rightarrow> 16 word \<Rightarrow> mem_ptr \<Rightarrow> nat \<Rightarrow> bool \<Rightarrow> 8 word \<Rightarrow> 32 word
       \<Rightarrow> gsmr_t \<times> world" where
  "conn_send w c ip port data btw bw fau blocking =
     (let w0 = w\<lparr>trace := trace w @ [EvDispatch (read_mem (heap w) data btw) fau blocking]\<rparr> in
      if c = NULL then (GSM_ASSERT_fail, w0)
      else if data = MNULL then (GSM_ASSERT_fail, w0)
      else if \<not> 0 < btw then (GSM_ASSERT_fail, w0)
      else
        let w1 = (if bw then w0\<lparr>trace := trace w0 @ [EvBwStore]\<rparr> else w0) in
        case GSM_MSG_VAR_ALLOC w1 of
          (False, w2) \<Rightarrow> (gsmERRMEM, w2)
        | (True, w2) \<Rightarrow>
            (case conn_get_val_id w2 of
               (v, w3) \<Rightarrow>
                 gsmi_send_msg_to_producer_mbox w3
                   (GSM_CMD_CIPSEND data (read_mem (heap w3) data btw) btw bw ip port fau v)
                   blocking 60000))"

definition flush_buff :: "world \<Rightarrow> gsm_conn_p \<Rightarrow> gsmr_t \<times> world" where
  "flush_buff w c =
     (let w1 = GSM_CORE_PROTECT w in
      if c \<noteq> NULL \<and> buff (conn w1) \<noteq> None
      then
        (case (if buff_ptr (conn w1) \<noteq> 0
               then conn_send w1 c None 0 (HEAP (the (buff (conn w1)))) (buff_ptr (conn w1))
                      False 1 0
               else (gsmERR, w1)) of
           (res, w2) \<Rightarrow>
             let w3 = (if res \<noteq> gsmOK then gsm_mem_free w2 (the (buff (conn w2))) else w2);
                 w4 = w3\<lparr>conn := (conn w3)\<lparr>buff := None\<rparr>\<rparr>
             in (res, GSM_CORE_UNPROTECT w4))
      else (gsmOK, GSM_CORE_UNPROTECT w1))"

definition gsm_conn_start ::
    "world \<Rightarrow> nat \<Rightarrow> string option \<Rightarrow> 16 word \<Rightarrow> nat \<Rightarrow> bool \<Rightarrow> 32 word \<Rightarrow> gsmr_t \<times> world" where
  "gsm_conn_start w type host port a evt_fn blocking =
     (case host of
        None \<Rightarrow> (GSM_ASSERT_fail, w)
      | Some h \<Rightarrow>
          if \<not> 0 < port then (GSM_ASSERT_fail, w)
          else if \<not> evt_fn then (GSM_ASSERT_fail, w)
          else
            (case GSM_MSG_VAR_ALLOC w of
               (False, w1) \<Rightarrow> (gsmERRMEM, w1)
             | (True, w1) \<Rightarrow>
                 gsmi_send_msg_to_producer_mbox w1 (GSM_CMD_CIPSTART type h port a) blocking 60000))"

definition gsm_conn_close :: "world \<Rightarrow> gsm_conn_p \<Rightarrow> 32 word \<Rightarrow> gsmr_t \<times> world" where
  "gsm_conn_close w c blocking =
     (if c = NULL then (GSM_ASSERT_fail, w)
      else
        let w1 = GSM_CORE_PROTECT w;
            res = (if in_closing (conn w1) \<or> \<not> active (conn w1) then gsmERR else gsmOK);
            w2 = GSM_CORE_UNPROTECT w1
        in if res \<noteq> gsmOK then (res, w2)
           else
             (case GSM_MSG_VAR_ALLOC w2 of
                (False, w3) \<Rightarrow> (gsmERRMEM, w3)
              | (True, w3) \<Rightarrow>
                  (case conn_get_val_id w3 of
                     (v, w4) \<Rightarrow>
                       (case flush_buff w4 c of
                          (fr, w5) \<Rightarrow>
                            (case gsmi_send_msg_to_producer_mbox w5 (GSM_CMD_CIPCLOSE v)
                                    blocking 1000 of
                               (res, w6) \<Rightarrow>
                                 if res = gsmOK \<and> blocking = 0
                                 then
                                   let w7 = GSM_CORE_PROTECT w6;
                                       w8 = w7\<lparr>conn := (conn w7)\<lparr>in_closing := True\<rparr>\<rparr>
                                   in (res, GSM_CORE_UNPROTECT w8)
                                 else (res, w6))))))"

definition gsm_conn_sendto ::
    "world \<Rightarrow> gsm_conn_p \<Rightarrow> nat option \<Rightarrow> 16 word \<Rightarrow> mem_ptr \<Rightarrow> nat \<Rightarrow> bool \<Rightarrow> 32 word
       \<Rightarrow> gsmr_t \<times> world" where
  "gsm_conn_sendto w c ip port data btw bw blocking =
     (if c = NULL then (GSM_ASSERT_fail, w)
      else
        (case flush_buff w c of
           (fr, w1) \<Rightarrow> conn_send w1 c ip port data btw bw 0 blocking))"

definition gsm_conn_send ::
    "world \<Rightarrow> gsm_conn_p \<Rightarrow> byte list option \<Rightarrow> nat \<Rightarrow> bool \<Rightarrow> 32 word \<Rightarrow> gsmr_t \<times> world" where
  "gsm_conn_send w c data btw bw blocking =
     (if c = NULL then (GSM_ASSERT_fail, w)
      else
        (case data of
           None \<Rightarrow> (GSM_ASSERT_fail, w)
         | Some d0 \<Rightarrow>
             if \<not> 0 < btw then (GSM_ASSERT_fail, w)
             else
               let w1 = GSM_CORE_PROTECT w in
               (case
                  (case buff (conn w1) of
                     None \<Rightarrow> (w1, d0, btw)
                   | Some a \<Rightarrow>
                       let to_copy = min btw (size_sub (SIZE_MAX w1) (buff_len (conn w1))
                                                (buff_ptr (conn w1))) in
                       if to_copy \<noteq> 0
                       then
                         let wc = GSM_MEMCPY w1 a (buff_ptr (conn w1)) d0 to_copy in
                         (wc\<lparr>conn := (conn wc)\<lparr>buff_ptr := buff_ptr (conn wc) + to_copy\<rparr>\<rparr>,
                          drop to_copy d0, btw - to_copy)
                       else (w1, d0, btw)) of
                  (w2, d, btw') \<Rightarrow>
                    (case flush_buff (GSM_CORE_UNPROTECT w2) c of
                       (res, w3) \<Rightarrow>
                         if btw' \<noteq> 0
                         then conn_send w3 c None 0 (USER d) btw' bw 0 blocking
                         else (res, w3)))))"

definition gsm_conn_set_arg :: "world \<Rightarrow> nat \<Rightarrow> gsmr_t \<times> world" where
  "gsm_conn_set_arg w a =
     (let w1 = GSM_CORE_PROTECT w;
          w2 = w1\<lparr>conn := (conn w1)\<lparr>arg := a\<rparr>\<rparr>
      in (gsmOK, GSM_CORE_UNPROTECT w2))"

definition gsm_conn_get_arg :: "world \<Rightarrow> nat \<times> world" where
  "gsm_conn_get_arg w =
     (let w1 = GSM_CORE_PROTECT w;
          a = arg (conn w1)
      in (a, GSM_CORE_UNPROTECT w1))"

definition gsm_get_conns_status :: "world \<Rightarrow> 32 word \<Rightarrow> gsmr_t \<times> world" where
  "gsm_get_conns_status w blocking =
     (case GSM_MSG_VAR_ALLOC w of
        (False, w1) \<Rightarrow> (gsmERRMEM, w1)
      | (True, w1) \<Rightarrow> gsmi_send_msg_to_producer_mbox w1 GSM_CMD_CIPSTATUS blocking 1000)"

text \<open>\<open>gsmi_is_valid_conn_ptr\<close> is not defined in gsm\_conn.c: its answer for the handle is
  the field \<open>conn_ptr_valid\<close> of the world.\<close>

definition gsmi_is_valid_conn_ptr :: "world \<Rightarrow> gsm_conn_p \<Rightarrow> bool" where
  "gsmi_is_valid_conn_ptr w c = conn_ptr_valid w"

definition gsm_conn_is_client :: "world \<Rightarrow> gsm_conn_p \<Rightarrow> 8 word \<times> world" where
  "gsm_conn_is_client w c =
     (if c \<noteq> NULL \<and> gsmi_is_valid_conn_ptr w c
      then
        let w1 = GSM_CORE_PROTECT w;
            res = of_bool (active (conn w1) \<and> client (conn w1))
        in (res, GSM_CORE_UNPROTECT w1)
      else (0, w))"

definition gsm_conn_is_server :: "world \<Rightarrow> gsm_conn_p \<Rightarrow> 8 word \<times> world" where
  "gsm_conn_is_server w c =
     (if c \<noteq> NULL \<and> gsmi_is_valid_conn_ptr w c
      then
        let w1 = GSM_CORE_PROTECT w;
            res = of_bool (active (conn w1) \<and> \<not> client (conn w1))
        in (res, GSM_CORE_UNPROTECT w1)
      else (0, w))"

definition gsm_conn_is_active :: "world \<Rightarrow> gsm_conn_p \<Rightarrow> 8 word \<times> world" where
  "gsm_conn_is_active w c =
     (if c \<noteq> NULL \<and> gsmi_is_valid_conn_ptr w c
      then
        let w1 = GSM_CORE_PROTECT w;
            res = of_bool (active (conn w1))
        in (res, GSM_CORE_UNPROTECT w1)
      else (0, w))"

definition gsm_conn_is_closed :: "world \<Rightarrow> gsm_conn_p \<Rightarrow> 8 word \<times> world" where
  "gsm_conn_is_closed w c =
     (if c \<noteq> NULL \<and> gsmi_is_valid_conn_ptr w c
      then
        let w1 = GSM_CORE_PROTECT w;
            res = of_bool (\<not> active (conn w1))
        in (res, GSM_CORE_UNPROTECT w1)
      else (0, w))"

definition gsm_conn_get_total_recved_count :: "world \<Rightarrow> gsm_conn_p \<Rightarrow> (gsmr_t + nat) \<times> world" where
  "gsm_conn_get_total_recved_count w c =
     (if c = NULL then (Inl GSM_ASSERT_fail, w)
      else
        let w1 = GSM_CORE_PROTECT w;
            tot = total_recved (conn w1)
        in (Inr tot, GSM_CORE_UNPROTECT w1))"

definition gsm_conn_get_remote_ip :: "world \<Rightarrow> gsm_conn_p \<Rightarrow> bool \<Rightarrow> (8 word \<times> nat option) \<times> world" where
  "gsm_conn_get_remote_ip w c ip =
     (if c \<noteq> NULL \<and> ip
      then
        let w1 = GSM_CORE_PROTECT w;
            v = remote_ip (conn w1)
        in ((1, Some v), GSM_CORE_UNPROTECT w1)
      else ((0, None), w))"

definition gsm_conn_get_remote_port :: "world \<Rightarrow> gsm_conn_p \<Rightarrow> 16 word \<times> world" where
  "gsm_conn_get_remote_port w c =
     (if c \<noteq> NULL
      then
        let w1 = GSM_CORE_PROTECT w;
            port = remote_port (conn w1)
        in (port, GSM_CORE_UNPROTECT w1)
      else (0, w))"

definition gsm_conn_get_local_port :: "world \<Rightarrow> gsm_conn_p \<Rightarrow> 16 word \<times> world" where
  "gsm_conn_get_local_port w c =
     (if c \<noteq> NULL
      then
        let w1 = GSM_CORE_PROTECT w;
            port = local_port (conn w1)
        in (port, GSM_CORE_UNPROTECT w1)
      else (0, w))"

definition gsmi_conn_init :: "world \<Rightarrow> world" where
  "gsmi_conn_init w = w"

text \<open>\<open>gsm_conn_recved\<close>: the argument is what \<open>gsm_pbuf_length(pbuf, 1)\<close> returns, a function
  that is not defined in gsm\_conn.c.\<close>

definition gsm_conn_recved :: "world \<Rightarrow> nat \<Rightarrow> gsmr_t \<times> world" where
  "gsm_conn_recved w len =
     (if GSM_CFG_CONN_MANUAL_TCP_RECEIVE w
      then
        (gsmOK,
         if len < tcp_available_data (conn w)
         then w\<lparr>conn := (conn w)\<lparr>tcp_available_data := tcp_available_data (conn w) - len\<rparr>\<rparr>
         else w)
      else (gsmOK, w))"

definition gsm_conn_getnum :: "world \<Rightarrow> gsm_conn_p \<Rightarrow> int" where
  "gsm_conn_getnum w c =
     (if c \<noteq> NULL \<and> gsmi_is_valid_conn_ptr w c then num (conn w) else - 1)"

text \<open>\<open>gsm_conn_get_from_evt\<close>: the second argument is the connection pointer stored in the
  event, which the getters \<open>gsm_evt_conn_..._get_conn\<close> (not defined in gsm\_conn.c) return.\<close>

definition gsm_conn_get_from_evt :: "gsm_evt_type_t \<Rightarrow> gsm_conn_p \<Rightarrow> gsm_conn_p" where
  "gsm_conn_get_from_evt t p =
     (if t = GSM_EVT_CONN_ACTIVE then p
      else if t = GSM_EVT_CONN_CLOSED then p
      else if t = GSM_EVT_CONN_DATA_RECV then p
      else if t = GSM_EVT_CONN_DATA_SEND then p
      else if t = GSM_EVT_CONN_POLL then p
      else NULL)"

subsection \<open>\<open>gsm_conn_write\<close>\<close>

text \<open>
  The sizes (\<open>btw\<close>, \<open>buff.len\<close>, \<open>buff.ptr\<close>) are \<open>size_t\<close> in the source and natural
  numbers here. The subtraction \<open>buff.len - buff.ptr\<close> is \<open>size_sub\<close>: it wraps around when
  \<open>buff.ptr\<close> exceeds \<open>buff.len\<close>. The other subtractions are guarded by the code
  (\<open>btw -= len\<close> with \<open>len \<le> btw\<close>, and \<open>btw -= GSM_CFG_CONN_MAX_DATA_LEN\<close> inside the
  loop), and \<open>buff.ptr += len\<close> stays within the buffer unless \<open>GSM_MEMCPY\<close> has raised the
  fault flag.
  The input is the list of the bytes at \<open>data\<close> (empty for a null pointer).

  Step 1 and step 1.1: copy into the buffer already there; send it when full or when the
  flush flag is set. The result is the world, the advanced data pointer and the remaining
  length.
\<close>

definition write_step1 :: "world \<Rightarrow> byte list \<Rightarrow> nat \<Rightarrow> 8 word \<Rightarrow> world \<times> byte list \<times> nat" where
  "write_step1 w d btw flush =
     (case buff (conn w) of
        None \<Rightarrow> (w, d, btw)
      | Some a \<Rightarrow>
          let len = min (size_sub (SIZE_MAX w) (buff_len (conn w)) (buff_ptr (conn w))) btw;
              w1 = GSM_MEMCPY w a (buff_ptr (conn w)) d len;
              d1 = drop len d;
              btw1 = btw - len;
              w2 = w1\<lparr>conn := (conn w1)\<lparr>buff_ptr := buff_ptr (conn w1) + len\<rparr>\<rparr>
          in if buff_ptr (conn w2) = buff_len (conn w2) \<or> flush \<noteq> 0
             then
               (case conn_send w2 PTR None 0 (HEAP a) (buff_ptr (conn w2)) False 1 0 of
                  (r, w3) \<Rightarrow>
                    let w4 = (if r \<noteq> gsmOK then gsm_mem_free w3 a else w3)
                    in (w4\<lparr>conn := (conn w4)\<lparr>buff := None\<rparr>\<rparr>, d1, btw1))
             else (w2, d1, btw1))"

text \<open>Step 2, the loop over full-size chunks. \<open>Inl\<close> is a return from \<open>gsm_conn_write\<close>
  inside the loop.\<close>

function write_step2 ::
    "world \<Rightarrow> byte list \<Rightarrow> nat \<Rightarrow> (gsmr_t \<times> world) + (world \<times> byte list \<times> nat)" where
  "write_step2 w d btw =
     (let n = GSM_CFG_CONN_MAX_DATA_LEN w in
      if n \<le> btw
      then
        (case gsm_mem_alloc w n of
           (None, w1) \<Rightarrow> Inl (gsmERRMEM, w1)
         | (Some b, w1) \<Rightarrow>
             let w2 = GSM_MEMCPY w1 b 0 d n in
             (case conn_send w2 PTR None 0 (HEAP b) n False 1 0 of
                (r, w3) \<Rightarrow>
                  if r \<noteq> gsmOK then Inl (gsmERRMEM, gsm_mem_free w3 b)
                  else write_step2 w3 (drop n d) (btw - n)))
      else Inr (w, d, btw))"
  by pat_completeness auto
termination
proof (relation "measure (\<lambda>(w, d, btw). btw)")
  show "wf (measure (\<lambda>(w, d, btw). btw))" by simp
next
  fix w :: world and d :: "byte list" and btw n :: nat and x w1 b w2 y r w3
  assume n: "n = GSM_CFG_CONN_MAX_DATA_LEN w" and le: "n \<le> btw"
    and w2: "w2 = GSM_MEMCPY w1 b 0 d n"
    and cs: "(r, w3) = conn_send w2 PTR None 0 (HEAP b) n False 1 0"
    and ok: "\<not> r \<noteq> gsmOK"
  from cs ok have "conn_send w2 PTR None 0 (HEAP b) n False 1 0 = (gsmOK, w3)" by simp
  then have "0 < n"
    by (simp add: conn_send_def Let_def GSM_ASSERT_fail_def split: if_splits)
  with le show "((w3, drop n d, btw - n), (w, d, btw)) \<in> measure (\<lambda>(w, d, btw). btw)"
    by simp
qed

text \<open>Step 3: create the buffer when there is none, and copy what remains.\<close>

definition write_step3 :: "world \<Rightarrow> byte list \<Rightarrow> nat \<Rightarrow> (gsmr_t \<times> world) + world" where
  "write_step3 w d btw =
     (let w1 = (case buff (conn w) of
                  Some a \<Rightarrow> w
                | None \<Rightarrow>
                    (case gsm_mem_alloc w (GSM_CFG_CONN_MAX_DATA_LEN w) of
                       (p, wa) \<Rightarrow>
                         wa\<lparr>conn := (conn wa)\<lparr>buff := p,
                                buff_len := GSM_CFG_CONN_MAX_DATA_LEN wa, buff_ptr := 0\<rparr>\<rparr>))
      in if btw \<noteq> 0
         then
           (case buff (conn w1) of
              Some a \<Rightarrow>
                let w2 = GSM_MEMCPY w1 a 0 d btw
                in Inr (w2\<lparr>conn := (conn w2)\<lparr>buff_ptr := btw\<rparr>\<rparr>)
            | None \<Rightarrow> Inl (gsmERRMEM, w1))
         else Inr w1)"

text \<open>The whole function. The output parameter \<open>mem_available\<close> is \<open>None\<close> for a null
  pointer and \<open>Some v\<close> for a pointer to a variable that holds \<open>v\<close>; the second component of
  the result is that variable after the call.\<close>

definition gsm_conn_write ::
    "world \<Rightarrow> gsm_conn_p \<Rightarrow> byte list \<Rightarrow> nat \<Rightarrow> 8 word \<Rightarrow> nat option
       \<Rightarrow> gsmr_t \<times> nat option \<times> world" where
  "gsm_conn_write w c data btw flush mem_available =
     (if c = NULL then (GSM_ASSERT_fail, mem_available, w)
      else
        (case write_step1 w data btw flush of
           (w1, d1, btw1) \<Rightarrow>
             (case write_step2 w1 d1 btw1 of
                Inl (r, w2) \<Rightarrow> (r, mem_available, w2)
              | Inr (w2, d2, btw2) \<Rightarrow>
                  (case write_step3 w2 d2 btw2 of
                     Inl (r, w3) \<Rightarrow> (r, mem_available, w3)
                   | Inr w3 \<Rightarrow>
                       let w4 = (if flush \<noteq> 0 \<and> buff (conn w3) \<noteq> None
                                 then snd (flush_buff w3 c) else w3);
                           ma = (case mem_available of
                                   None \<Rightarrow> None
                                 | Some old \<Rightarrow>
                                     Some (if buff (conn w4) \<noteq> None
                                           then size_sub (SIZE_MAX w4) (buff_len (conn w4))
                                                  (buff_ptr (conn w4))
                                           else 0))
                       in (gsmOK, ma, w4)))))"

subsection \<open>Observations on worlds\<close>

text \<open>The events a call appends to the trace.\<close>

definition new_events :: "world \<Rightarrow> world \<Rightarrow> event list" where
  "new_events w w' = drop (length (trace w)) (trace w')"

text \<open>Two concrete worlds used to instantiate the theorems: an active client connection with
  no write buffer, chunk size 4, an allocator that never fails and a mailbox that accepts
  everything; and the same connection once it is no longer active.\<close>

definition conn0 :: gsm_conn_t where
  "conn0 = \<lparr>num = 0, val_id = 7, active = True, in_closing = False, client = True,
            buff = None, buff_len = 0, buff_ptr = 0, arg = 0, total_recved = 0,
            remote_ip = 0, remote_port = 0, local_port = 0, tcp_available_data = 0\<rparr>"

definition world0 :: world where
  "world0 = \<lparr>conn = conn0, conn_ptr_valid = True, heap = (\<lambda>a. None), next_addr = 0,
             lock = 0, fault = False, alloc_ok = (\<lambda>k. True), n_alloc = 0,
             mbox_res = (\<lambda>k. gsmOK), n_sub = 0, GSM_CFG_CONN_MAX_DATA_LEN = 4,
             GSM_CFG_CONN_POLL_INTERVAL = 500, GSM_CFG_CONN_MANUAL_TCP_RECEIVE = False,
             SIZE_MAX = 4294967295, evt_type = GSM_EVT_NONE, trace = []\<rparr>"

definition world_inactive :: world where
  "world_inactive = world0\<lparr>conn := conn0\<lparr>active := False\<rparr>\<rparr>"

text \<open>A call extends the trace by events that all satisfy \<open>P\<close>.\<close>

definition ext :: "(event \<Rightarrow> bool) \<Rightarrow> world \<Rightarrow> world \<Rightarrow> bool" where
  "ext P w w' \<longleftrightarrow> (\<exists>new. trace w' = trace w @ new \<and> list_all P new)"

text \<open>
  Three properties of a single event, seen from a call that was entered with the core lock
  at depth \<open>L\<close> on a connection whose validation id is \<open>v\<close>:
  \<^item> a submission is made at the depth of entry, that is outside every critical section
    of this layer, or one level deeper and then it is the non-blocking, free-after-use send
    of a heap buffer that \<open>flush_buff\<close> builds;
  \<^item> a send command and a close command carry \<open>v\<close>;
  \<^item> the validation id is read at a depth above \<open>L\<close>, that is inside a critical section.
\<close>

fun is_flush_send :: "gsm_msg \<Rightarrow> bool" where
  "is_flush_send (GSM_CMD_CIPSEND (HEAP a) bs n bw ip port fau v) =
     (\<not> bw \<and> ip = None \<and> port = 0 \<and> fau = 1)"
| "is_flush_send m = False"

fun submit_lock_ok :: "nat \<Rightarrow> event \<Rightarrow> bool" where
  "submit_lock_ok L (EvSubmit m d b t r) =
     (d = L \<or> (d = Suc L \<and> b = 0 \<and> is_flush_send m))"
| "submit_lock_ok L e = True"

fun carries_val_id :: "8 word \<Rightarrow> event \<Rightarrow> bool" where
  "carries_val_id v (EvSubmit (GSM_CMD_CIPSEND p bs n bw ip port fau v') d b t r) = (v' = v)"
| "carries_val_id v (EvSubmit (GSM_CMD_CIPCLOSE v') d b t r) = (v' = v)"
| "carries_val_id v e = True"

fun read_under_lock :: "nat \<Rightarrow> event \<Rightarrow> bool" where
  "read_under_lock L (EvValRead d) = (L < d)"
| "read_under_lock L e = True"

definition ev_ok :: "nat \<Rightarrow> 8 word \<Rightarrow> event \<Rightarrow> bool" where
  "ev_ok L v e \<longleftrightarrow> submit_lock_ok L e \<and> carries_val_id v e \<and> read_under_lock L e"

text \<open>A call returns with the lock depth and the validation id it was entered with, and
  all the events it appended are as above.\<close>

definition step_rel :: "world \<Rightarrow> world \<Rightarrow> bool" where
  "step_rel w w' \<longleftrightarrow>
     lock w' = lock w \<and> val_id (conn w') = val_id (conn w)
     \<and> ext (ev_ok (lock w) (val_id (conn w))) w w'"

text \<open>The calls into this layer, with their arguments, and the world each leaves behind
  (\<open>gsm_conn_getnum\<close> and \<open>gsm_conn_get_from_evt\<close> only read).\<close>

datatype api_call =
  Call_conn_timeout_cb
| Call_gsmi_conn_start_timeout
| Call_conn_get_val_id
| Call_conn_send gsm_conn_p "nat option" "16 word" mem_ptr nat bool "8 word" "32 word"
| Call_flush_buff gsm_conn_p
| Call_gsm_conn_start nat "string option" "16 word" nat bool "32 word"
| Call_gsm_conn_close gsm_conn_p "32 word"
| Call_gsm_conn_sendto gsm_conn_p "nat option" "16 word" mem_ptr nat bool "32 word"
| Call_gsm_conn_send gsm_conn_p "byte list option" nat bool "32 word"
| Call_gsm_conn_set_arg nat
| Call_gsm_conn_get_arg
| Call_gsm_get_conns_status "32 word"
| Call_gsm_conn_is_client gsm_conn_p
| Call_gsm_conn_is_server gsm_conn_p
| Call_gsm_conn_is_active gsm_conn_p
| Call_gsm_conn_is_closed gsm_conn_p
| Call_gsm_conn_write gsm_conn_p "byte list" nat "8 word" "nat option"
| Call_gsm_conn_get_total_recved_count gsm_conn_p
| Call_gsm_conn_get_remote_ip gsm_conn_p bool
| Call_gsm_conn_get_remote_port gsm_conn_p
| Call_gsm_conn_get_local_port gsm_conn_p
| Call_gsmi_conn_init
| Call_gsm_conn_recved nat
| Call_gsm_conn_getnum gsm_conn_p
| Call_gsm_conn_get_from_evt gsm_evt_type_t gsm_conn_p

fun exec :: "api_call \<Rightarrow> world \<Rightarrow> world" where
  "exec Call_conn_timeout_cb w = conn_timeout_cb w"
| "exec Call_gsmi_conn_start_timeout w = gsmi_conn_start_timeout w"
| "exec Call_conn_get_val_id w = snd (conn_get_val_id w)"
| "exec (Call_conn_send c ip port data btw bw fau blocking) w =
     snd (conn_send w c ip port data btw bw fau blocking)"
| "exec (Call_flush_buff c) w = snd (flush_buff w c)"
| "exec (Call_gsm_conn_start type host port a evt_fn blocking) w =
     snd (gsm_conn_start w type host port a evt_fn blocking)"
| "exec (Call_gsm_conn_close c blocking) w = snd (gsm_conn_close w c blocking)"
| "exec (Call_gsm_conn_sendto c ip port data btw bw blocking) w =
     snd (gsm_conn_sendto w c ip port data btw bw blocking)"
| "exec (Call_gsm_conn_send c data btw bw blocking) w =
     snd (gsm_conn_send w c data btw bw blocking)"
| "exec (Call_gsm_conn_set_arg a) w = snd (gsm_conn_set_arg w a)"
| "exec Call_gsm_conn_get_arg w = snd (gsm_conn_get_arg w)"
| "exec (Call_gsm_get_conns_status blocking) w = snd (gsm_get_conns_status w blocking)"
| "exec (Call_gsm_conn_is_client c) w = snd (gsm_conn_is_client w c)"
| "exec (Call_gsm_conn_is_server c) w = snd (gsm_conn_is_server w c)"
| "exec (Call_gsm_conn_is_active c) w = snd (gsm_conn_is_active w c)"
| "exec (Call_gsm_conn_is_closed c) w = snd (gsm_conn_is_closed w c)"
| "exec (Call_gsm_conn_write c data btw flush mem_available) w =
     snd (snd (gsm_conn_write w c data btw flush mem_available))"
| "exec (Call_gsm_conn_get_total_recved_count c) w = snd (gsm_conn_get_total_recved_count w c)"
| "exec (Call_gsm_conn_get_remote_ip c ip) w = snd (gsm_conn_get_remote_ip w c ip)"
| "exec (Call_gsm_conn_get_remote_port c) w = snd (gsm_conn_get_remote_port w c)"
| "exec (Call_gsm_conn_get_local_port c) w = snd (gsm_conn_get_local_port w c)"
| "exec Call_gsmi_conn_init w = gsmi_conn_init w"
| "exec (Call_gsm_conn_recved len) w = snd (gsm_conn_recved w len)"
| "exec (Call_gsm_conn_getnum c) w = w"
| "exec (Call_gsm_conn_get_from_evt t p) w = w"

text \<open>A third concrete world: the connection of \<open>world0\<close> with a write buffer at address 0
  that holds one staged byte.\<close>

definition world_staged :: world where
  "world_staged = world0\<lparr>conn := conn0\<lparr>buff := Some 0, buff_len := 4, buff_ptr := 1\<rparr>,
                          heap := (\<lambda>a. None)(0 \<mapsto> [9, 0, 0, 0]), next_addr := 1\<rparr>"

text \<open>A submission made outside every critical section of a call entered at lock depth
  \<open>L\<close>: the lock is no deeper than it was on entry.\<close>

fun submit_unlocked :: "nat \<Rightarrow> event \<Rightarrow> bool" where
  "submit_unlocked L (EvSubmit m d b t r) = (d = L)"
| "submit_unlocked L e = True"

text \<open>The close commands handed to the producer queue, whatever the answer was.\<close>

fun is_close_submit :: "event \<Rightarrow> bool" where
  "is_close_submit (EvSubmit (GSM_CMD_CIPCLOSE v) d b t r) = True"
| "is_close_submit e = False"

definition close_submits :: "event list \<Rightarrow> event list" where
  "close_submits tr = filter is_close_submit tr"

text \<open>The bytes handed to the dispatcher (\<open>conn_send\<close>) along a trace, in order; the bytes
  staged in the write buffer of the connection; and the invariant of the write buffer:
  when the connection has one, it is a live buffer of \<open>buff.len\<close> bytes and
  \<open>buff.ptr \<le> buff.len\<close>.\<close>

fun ev_bytes :: "event \<Rightarrow> byte list" where
  "ev_bytes (EvDispatch bs fau blocking) = bs"
| "ev_bytes e = []"

definition dispatched :: "event list \<Rightarrow> byte list" where
  "dispatched tr = concat (map ev_bytes tr)"

definition staged :: "world \<Rightarrow> byte list" where
  "staged w =
     (case buff (conn w) of
        None \<Rightarrow> []
      | Some a \<Rightarrow> (case heap w a of None \<Rightarrow> [] | Some bs \<Rightarrow> take (buff_ptr (conn w)) bs))"

definition buff_ok :: "world \<Rightarrow> bool" where
  "buff_ok w =
     (case buff (conn w) of
        None \<Rightarrow> True
      | Some a \<Rightarrow>
          (case heap w a of
             None \<Rightarrow> False
           | Some bs \<Rightarrow> length bs = buff_len (conn w) \<and> buff_ptr (conn w) \<le> buff_len (conn w)))"

text \<open>A world in which every allocation fails.\<close>

definition world_nomem :: world where
  "world_nomem = world0\<lparr>alloc_ok := (\<lambda>k. False)\<rparr>"

text \<open>An event other than a failed buffer allocation.\<close>

definition no_alloc_fail :: "event \<Rightarrow> bool" where
  "no_alloc_fail e \<longleftrightarrow> e \<noteq> EvMemAllocFail"

text \<open>A world in which the first allocation succeeds and every later one fails.\<close>

definition world_oneshot :: world where
  "world_oneshot = world0\<lparr>alloc_ok := (\<lambda>k. k = 0)\<rparr>"

text \<open>An event other than a failed envelope allocation.\<close>

definition no_msg_fail :: "event \<Rightarrow> bool" where
  "no_msg_fail e \<longleftrightarrow> e \<noteq> EvMsgAllocFail"

text \<open>The world \<open>world_staged\<close> with an allocator that refuses the first request and grants
  every later one.\<close>

definition world_envfail :: world where
  "world_envfail = world_staged\<lparr>alloc_ok := (\<lambda>k. k \<noteq> 0)\<rparr>"

section \<open>Properties\<close>

lemmas prim_defs =
  GSM_MSG_VAR_ALLOC_def conn_get_val_id_def GSM_CORE_PROTECT_def GSM_CORE_UNPROTECT_def
  gsmi_send_msg_to_producer_mbox_def GSM_ASSERT_fail_def

lemmas world0_defs = world0_def conn0_def world_inactive_def

lemma size_sub_le [simp]: "b \<le> a \<Longrightarrow> size_sub m a b = a - b"
  by (simp add: size_sub_def)

subsection \<open>Closed forms of \<open>conn_send\<close> and \<open>flush_buff\<close>\<close>

lemma ext_refl: "ext P w w"
  by (simp add: ext_def)

lemma ext_trans: "ext P w w1 \<Longrightarrow> ext P w1 w2 \<Longrightarrow> ext P w w2"
  by (auto simp: ext_def)

lemma ext_new_events: "ext P w w' \<Longrightarrow> trace w' = trace w @ new_events w w' \<and> list_all P (new_events w w')"
  by (auto simp: ext_def new_events_def)

lemma conn_send_closed:
  "conn_send w c ip port data btw bw fau blocking =
     (if c = NULL \<or> data = MNULL \<or> btw = 0
      then (gsmERR, w\<lparr>trace := trace w @ [EvDispatch (read_mem (heap w) data btw) fau blocking]\<rparr>)
      else if \<not> alloc_ok w (n_alloc w)
      then (gsmERRMEM, w\<lparr>n_alloc := Suc (n_alloc w),
              trace := trace w @ EvDispatch (read_mem (heap w) data btw) fau blocking
                         # (if bw then [EvBwStore] else []) @ [EvMsgAllocFail]\<rparr>)
      else (mbox_res w (n_sub w),
            w\<lparr>heap := mbox_takes (GSM_CMD_CIPSEND data (read_mem (heap w) data btw) btw bw ip port fau (val_id (conn w))) (mbox_res w (n_sub w)) (heap w),
              n_alloc := Suc (n_alloc w), n_sub := Suc (n_sub w),
              trace := trace w @ EvDispatch (read_mem (heap w) data btw) fau blocking
                         # (if bw then [EvBwStore] else [])
                         @ [EvValRead (Suc (lock w)),
                            EvSubmit (GSM_CMD_CIPSEND data (read_mem (heap w) data btw) btw bw ip port fau (val_id (conn w)))
                              (lock w) blocking 60000 (mbox_res w (n_sub w))]\<rparr>))"
  by (simp add: conn_send_def Let_def prim_defs)

lemma flush_buff_none:
  "c = NULL \<or> buff (conn w) = None \<Longrightarrow> flush_buff w c = (gsmOK, w)"
  by (auto simp: flush_buff_def Let_def prim_defs)

lemma flush_buff_empty:
  "c \<noteq> NULL \<Longrightarrow> buff (conn w) = Some a \<Longrightarrow> buff_ptr (conn w) = 0 \<Longrightarrow>
   flush_buff w c = (gsmERR, (gsm_mem_free w a)\<lparr>conn := (conn w)\<lparr>buff := None\<rparr>\<rparr>)"
  by (auto simp: flush_buff_def Let_def prim_defs gsm_mem_free_def split: option.splits)

lemma mbox_takes_fau [simp]:
  "mbox_takes (GSM_CMD_CIPSEND (HEAP a) bs n bw ip port 1 v) r h = (if r = gsmOK then h(a := None) else h)"
  by (simp add: mbox_takes_def)

lemma mbox_takes_user [simp]:
  "mbox_takes (GSM_CMD_CIPSEND (USER d) bs n bw ip port fau v) r h = h"
  "mbox_takes (GSM_CMD_CIPSEND MNULL bs n bw ip port fau v) r h = h"
  "mbox_takes (GSM_CMD_CIPSEND p bs n bw ip port 0 v) r h = h"
  "mbox_takes (GSM_CMD_CIPCLOSE v) r h = h"
  "mbox_takes (GSM_CMD_CIPSTART t ho po ar) r h = h"
  "mbox_takes GSM_CMD_CIPSTATUS r h = h"
  by (cases p; simp add: mbox_takes_def)+

lemma flush_buff_data:
  "c \<noteq> NULL \<Longrightarrow> buff (conn w) = Some a \<Longrightarrow> buff_ptr (conn w) \<noteq> 0 \<Longrightarrow>
   flush_buff w c =
     (let bs = read_mem (heap w) (HEAP a) (buff_ptr (conn w));
          m = GSM_CMD_CIPSEND (HEAP a) bs (buff_ptr (conn w)) False None 0 1 (val_id (conn w));
          r = mbox_res w (n_sub w)
      in if \<not> alloc_ok w (n_alloc w)
         then (gsmERRMEM,
               (gsm_mem_free (w\<lparr>n_alloc := Suc (n_alloc w),
                                 trace := trace w @ [EvDispatch bs 1 0, EvMsgAllocFail]\<rparr>) a)
                 \<lparr>conn := (conn w)\<lparr>buff := None\<rparr>\<rparr>)
         else if r = gsmOK
         then (gsmOK,
               w\<lparr>conn := (conn w)\<lparr>buff := None\<rparr>, heap := (heap w)(a := None),
                 n_alloc := Suc (n_alloc w), n_sub := Suc (n_sub w),
                 trace := trace w @ [EvDispatch bs 1 0, EvValRead (Suc (Suc (lock w))),
                                     EvSubmit m (Suc (lock w)) 0 60000 gsmOK]\<rparr>)
         else (r,
               (gsm_mem_free (w\<lparr>n_alloc := Suc (n_alloc w), n_sub := Suc (n_sub w),
                                 trace := trace w @ [EvDispatch bs 1 0, EvValRead (Suc (Suc (lock w))),
                                     EvSubmit m (Suc (lock w)) 0 60000 r]\<rparr>) a)
                 \<lparr>conn := (conn w)\<lparr>buff := None\<rparr>\<rparr>))"
  by (auto simp: flush_buff_def Let_def conn_send_closed GSM_CORE_PROTECT_def GSM_CORE_UNPROTECT_def gsm_mem_free_def split: option.splits)

subsection \<open>Lock depth, validation id and events along every call\<close>

lemma step_rel_refl: "step_rel w w"
  by (simp add: step_rel_def ext_refl)

lemma step_rel_trans: "step_rel w w1 \<Longrightarrow> step_rel w1 w2 \<Longrightarrow> step_rel w w2"
  by (auto simp: step_rel_def intro: ext_trans)

lemma step_rel_app:
  "lock w' = lock w \<Longrightarrow> val_id (conn w') = val_id (conn w) \<Longrightarrow> trace w' = trace w @ new
   \<Longrightarrow> list_all (ev_ok (lock w) (val_id (conn w))) new \<Longrightarrow> step_rel w w'"
  by (auto simp: step_rel_def ext_def)

lemma step_rel_same_trace:
  "lock w' = lock w \<Longrightarrow> val_id (conn w') = val_id (conn w) \<Longrightarrow> trace w' = trace w
   \<Longrightarrow> step_rel w w'"
  by (rule step_rel_app [where new = "[]"]) simp_all

lemma step_rel_conn_send1: "step_rel w (snd (conn_send w c ip port data btw bw fau blocking))"
  by (rule step_rel_app [where new = "new_events w (snd (conn_send w c ip port data btw bw fau blocking))"])
     (auto simp: conn_send_closed new_events_def ev_ok_def)

lemma step_rel_mem_free: "step_rel w x \<Longrightarrow> step_rel w (gsm_mem_free x a)"
  by (erule step_rel_trans, rule step_rel_app [where new = "[EvFree a]"])
     (auto simp: gsm_mem_free_def ev_ok_def split: option.splits)

lemma step_rel_mem_alloc: "step_rel w x \<Longrightarrow> gsm_mem_alloc x n = (p, w') \<Longrightarrow> step_rel w w'"
  by (erule step_rel_trans, rule step_rel_app [where new = "new_events x w'"])
     (auto simp: gsm_mem_alloc_def ev_ok_def new_events_def split: if_splits)

lemma step_rel_memcpy: "step_rel w x \<Longrightarrow> step_rel w (GSM_MEMCPY x a off d n)"
  by (erule step_rel_trans, rule step_rel_same_trace)
     (auto simp: GSM_MEMCPY_def split: option.splits)

lemma step_rel_flush_buff1: "step_rel w (snd (flush_buff w c))"
proof (cases "c = NULL \<or> buff (conn w) = None")
  case True
  then show ?thesis by (simp add: flush_buff_none step_rel_refl)
next
  case False
  then obtain a where a: "c \<noteq> NULL" "buff (conn w) = Some a" by auto
  show ?thesis
  proof (cases "buff_ptr (conn w) = 0")
    case True
    with a show ?thesis
      by (simp add: flush_buff_empty)
         (rule step_rel_app [where new = "[EvFree a]"];
          simp add: gsm_mem_free_def ev_ok_def split: option.splits)
  next
    case False
    with a show ?thesis
      by (simp add: flush_buff_data Let_def)
         (auto intro!: step_rel_app [where new = "new_events w (snd (flush_buff w c))"]
               simp: flush_buff_data Let_def gsm_mem_free_def ev_ok_def new_events_def split: option.splits)
  qed
qed

lemma unprotect_protect [simp]: "GSM_CORE_UNPROTECT (GSM_CORE_PROTECT w) = w"
  by (simp add: GSM_CORE_PROTECT_def GSM_CORE_UNPROTECT_def)

lemma conn_frame [simp]:
  "conn (GSM_CORE_PROTECT w) = conn w"
  "conn (GSM_CORE_UNPROTECT w) = conn w"
  "conn (snd (GSM_MSG_VAR_ALLOC w)) = conn w"
  "conn (snd (conn_get_val_id w)) = conn w"
  "conn (snd (gsmi_send_msg_to_producer_mbox w m b t)) = conn w"
  "conn (snd (gsm_mem_alloc w n)) = conn w"
  "conn (gsm_mem_free w a) = conn w"
  "conn (GSM_MEMCPY w a off d n) = conn w"
  "conn (snd (conn_send w c ip port data btw bw fau blocking)) = conn w"
  by (simp_all add: prim_defs Let_def gsm_mem_alloc_def gsm_mem_free_def GSM_MEMCPY_def
      conn_send_closed split: option.splits)

lemma conn_flush_buff [simp]:
  "conn (snd (flush_buff w c)) = (if c = NULL then conn w else (conn w)\<lparr>buff := None\<rparr>)"
proof (cases "c = NULL \<or> buff (conn w) = None")
  case True
  then show ?thesis by (auto simp: flush_buff_none)
next
  case False
  then obtain a where "c \<noteq> NULL" "buff (conn w) = Some a" by auto
  then show ?thesis
    by (cases "buff_ptr (conn w) = 0") (simp_all add: flush_buff_empty flush_buff_data Let_def)
qed

lemma cfg_frame [simp]:
  "GSM_CFG_CONN_MAX_DATA_LEN (snd (gsm_mem_alloc w n)) = GSM_CFG_CONN_MAX_DATA_LEN w"
  "GSM_CFG_CONN_MAX_DATA_LEN (gsm_mem_free w a) = GSM_CFG_CONN_MAX_DATA_LEN w"
  "GSM_CFG_CONN_MAX_DATA_LEN (GSM_MEMCPY w a off d n) = GSM_CFG_CONN_MAX_DATA_LEN w"
  "GSM_CFG_CONN_MAX_DATA_LEN (snd (conn_send w c ip port data btw bw fau blocking)) =
     GSM_CFG_CONN_MAX_DATA_LEN w"
  by (simp_all add: gsm_mem_alloc_def gsm_mem_free_def GSM_MEMCPY_def
      conn_send_closed split: option.splits)

lemma lock_frame [simp]:
  "lock (snd (GSM_MSG_VAR_ALLOC w)) = lock w"
  "lock (snd (conn_get_val_id w)) = lock w"
  "lock (snd (gsmi_send_msg_to_producer_mbox w m b t)) = lock w"
  "lock (snd (gsm_mem_alloc w n)) = lock w"
  "lock (gsm_mem_free w a) = lock w"
  "lock (GSM_MEMCPY w a off d n) = lock w"
  "lock (snd (conn_send w c ip port data btw bw fau blocking)) = lock w"
  by (simp_all add: prim_defs Let_def gsm_mem_alloc_def gsm_mem_free_def GSM_MEMCPY_def
      conn_send_closed split: option.splits)

lemma trace_memcpy [simp]: "trace (GSM_MEMCPY w a off d n) = trace w"
  by (simp add: GSM_MEMCPY_def split: option.splits)

lemma carries_val_id_msg:
  "carries_val_id v (EvSubmit m d b t r) \<longleftrightarrow> msg_val_id m = None \<or> msg_val_id m = Some v"
  by (cases m) simp_all

lemma step_rel_lock: "step_rel w x \<Longrightarrow> lock x = lock w"
  by (simp add: step_rel_def)

lemma step_rel_val_id: "step_rel w x \<Longrightarrow> val_id (conn x) = val_id (conn w)"
  by (simp add: step_rel_def)

lemma protect_frame [simp]:
  "lock (GSM_CORE_PROTECT w) = Suc (lock w)"
  "lock (GSM_CORE_UNPROTECT w) = lock w - 1"
  "trace (GSM_CORE_PROTECT w) = trace w"
  "trace (GSM_CORE_UNPROTECT w) = trace w"
  by (simp_all add: GSM_CORE_PROTECT_def GSM_CORE_UNPROTECT_def)

lemma step_rel_eqv:
  "step_rel w x \<Longrightarrow> lock y = lock x \<Longrightarrow> trace y = trace x \<Longrightarrow> val_id (conn y) = val_id (conn x)
   \<Longrightarrow> step_rel w y"
  by (erule step_rel_trans, rule step_rel_same_trace) simp_all

lemma step_rel_conn_upd:
  "step_rel w x \<Longrightarrow> val_id c' = val_id (conn x) \<Longrightarrow> step_rel w (x\<lparr>conn := c'\<rparr>)"
  by (erule step_rel_trans, rule step_rel_same_trace) simp_all

lemma step_rel_snd_conn_send:
  "step_rel w x \<Longrightarrow> step_rel w (snd (conn_send x c ip port data btw bw fau blocking))"
  by (erule step_rel_trans) (rule step_rel_conn_send1)

lemma step_rel_snd_flush_buff:
  "step_rel w x \<Longrightarrow> step_rel w (snd (flush_buff x c))"
  by (erule step_rel_trans) (rule step_rel_flush_buff1)

lemma step_rel_snd_mem_alloc: "step_rel w x \<Longrightarrow> step_rel w (snd (gsm_mem_alloc x n))"
  by (cases "gsm_mem_alloc x n") (auto intro: step_rel_mem_alloc)

lemma step_rel_snd_mbox:
  "step_rel w x \<Longrightarrow> msg_val_id m = None \<or> msg_val_id m = Some (val_id (conn x))
    \<Longrightarrow> step_rel w (snd (gsmi_send_msg_to_producer_mbox x m b t))"
  apply (erule step_rel_trans)
  apply (rule step_rel_app [where new = "[EvSubmit m (lock x) b t (mbox_res x (n_sub x))]"])
  apply (auto simp: gsmi_send_msg_to_producer_mbox_def Let_def ev_ok_def carries_val_id_msg)
  done

lemma step_rel_snd_msg_alloc:
  "step_rel w x \<Longrightarrow> step_rel w (snd (GSM_MSG_VAR_ALLOC x))"
  by (erule step_rel_trans,
      rule step_rel_app [where new = "if alloc_ok x (n_alloc x) then [] else [EvMsgAllocFail]"])
     (auto simp: GSM_MSG_VAR_ALLOC_def ev_ok_def)

lemma step_rel_snd_get_val_id:
  "step_rel w x \<Longrightarrow> step_rel w (snd (conn_get_val_id x))"
  apply (erule step_rel_trans)
  apply (rule step_rel_app [where new = "[EvValRead (Suc (lock x))]"])
  apply (auto simp: conn_get_val_id_def Let_def GSM_CORE_PROTECT_def GSM_CORE_UNPROTECT_def ev_ok_def)
  done

lemma fst_conn_get_val_id [simp]: "fst (conn_get_val_id w) = val_id (conn w)"
  by (simp add: conn_get_val_id_def Let_def GSM_CORE_PROTECT_def)

lemmas step_rel_intros =
  step_rel_refl step_rel_snd_conn_send step_rel_snd_flush_buff step_rel_snd_mem_alloc
  step_rel_snd_msg_alloc step_rel_snd_get_val_id step_rel_mem_free step_rel_memcpy

lemma step_rel_start: "step_rel w (snd (gsm_conn_start w type host port a evt_fn blocking))"
  by (auto simp: gsm_conn_start_def case_prod_beta split: option.splits bool.splits
      intro!: step_rel_intros step_rel_snd_mbox)

lemma step_rel_status: "step_rel w (snd (gsm_get_conns_status w blocking))"
  by (auto simp: gsm_get_conns_status_def case_prod_beta split: option.splits bool.splits
      intro!: step_rel_intros step_rel_snd_mbox)

lemma step_rel_sendto: "step_rel w (snd (gsm_conn_sendto w c ip port data btw bw blocking))"
  by (auto simp: gsm_conn_sendto_def case_prod_beta intro!: step_rel_intros)

lemma step_rel_relock:
  "step_rel w x \<Longrightarrow> val_id c' = val_id (conn w)
    \<Longrightarrow> step_rel w (GSM_CORE_UNPROTECT ((GSM_CORE_PROTECT x)\<lparr>conn := c'\<rparr>))"
  by (rule step_rel_eqv [where x = x]) (simp_all add: GSM_CORE_UNPROTECT_def step_rel_val_id)

lemma step_rel_close: "step_rel w (snd (gsm_conn_close w c blocking))"
proof -
  have s3: "step_rel w (snd (GSM_MSG_VAR_ALLOC w))"
    by (intro step_rel_intros)
  have s6: "step_rel w (snd (gsmi_send_msg_to_producer_mbox
              (snd (flush_buff (snd (conn_get_val_id (snd (GSM_MSG_VAR_ALLOC w)))) c))
              (GSM_CMD_CIPCLOSE (val_id (conn w))) b 1000))" for b
    by (intro step_rel_intros step_rel_snd_mbox) simp
  show ?thesis
    using s3
    by (auto simp: gsm_conn_close_def case_prod_beta Let_def step_rel_refl split: bool.splits
        intro!: step_rel_relock s6)
qed

lemma step_rel_send: "step_rel w (snd (gsm_conn_send w c data btw bw blocking))"
  by (auto simp: gsm_conn_send_def case_prod_beta Let_def GSM_CORE_PROTECT_def GSM_CORE_UNPROTECT_def
       split: option.splits
      intro!: step_rel_intros step_rel_conn_upd step_rel_same_trace)

lemma step_rel_write_step1: "step_rel w (fst (write_step1 w d btw flush))"
  by (auto simp: write_step1_def case_prod_beta Let_def
       split: option.splits
      intro!: step_rel_intros step_rel_conn_upd step_rel_same_trace)

declare write_step2.simps [simp del]

lemma write_step2_unfold:
  "write_step2 w d btw =
     (if GSM_CFG_CONN_MAX_DATA_LEN w \<le> btw
      then
        (case gsm_mem_alloc w (GSM_CFG_CONN_MAX_DATA_LEN w) of
           (None, w1) \<Rightarrow> Inl (gsmERRMEM, w1)
         | (Some b, w1) \<Rightarrow>
             (case conn_send (GSM_MEMCPY w1 b 0 d (GSM_CFG_CONN_MAX_DATA_LEN w)) PTR None 0 (HEAP b)
                     (GSM_CFG_CONN_MAX_DATA_LEN w) False 1 0 of
                (r, w3) \<Rightarrow>
                  if r \<noteq> gsmOK then Inl (gsmERRMEM, gsm_mem_free w3 b)
                  else write_step2 w3 (drop (GSM_CFG_CONN_MAX_DATA_LEN w) d)
                         (btw - GSM_CFG_CONN_MAX_DATA_LEN w)))
      else Inr (w, d, btw))"
  by (subst write_step2.simps) (simp add: Let_def split: prod.splits option.splits)

lemma step_rel_write_step2:
  "(write_step2 w d btw = Inl (r, w') \<longrightarrow> step_rel w w')
   \<and> (write_step2 w d btw = Inr (w', d', btw') \<longrightarrow> step_rel w w')"
proof (induction w d btw rule: write_step2.induct)
  case (1 w d btw)
  show ?case
  proof (cases "GSM_CFG_CONN_MAX_DATA_LEN w \<le> btw")
    case False
    then show ?thesis by (simp add: write_step2_unfold [of w d btw] step_rel_refl)
  next
    case True
    note le = this
    obtain p w1 where al: "gsm_mem_alloc w (GSM_CFG_CONN_MAX_DATA_LEN w) = (p, w1)"
      by (cases "gsm_mem_alloc w (GSM_CFG_CONN_MAX_DATA_LEN w)")
    have s1: "step_rel w w1" using al step_rel_snd_mem_alloc [OF step_rel_refl, of w "GSM_CFG_CONN_MAX_DATA_LEN w"] by simp
    show ?thesis
    proof (cases p)
      case None
      with le al s1 show ?thesis by (auto simp: write_step2_unfold [of w d btw])
    next
      case (Some b)
      define w2 where "w2 = GSM_MEMCPY w1 b 0 d (GSM_CFG_CONN_MAX_DATA_LEN w)"
      obtain r3 w3 where cs: "conn_send w2 PTR None 0 (HEAP b) (GSM_CFG_CONN_MAX_DATA_LEN w) False 1 0 = (r3, w3)"
        by (cases "conn_send w2 PTR None 0 (HEAP b) (GSM_CFG_CONN_MAX_DATA_LEN w) False 1 0")
      have "step_rel w (snd (conn_send w2 PTR None 0 (HEAP b) (GSM_CFG_CONN_MAX_DATA_LEN w) False 1 0))"
        unfolding w2_def by (intro step_rel_snd_conn_send step_rel_memcpy s1)
      with cs have s3: "step_rel w w3" by simp
      show ?thesis
      proof (cases "r3 = gsmOK")
        case False
        with le al Some cs s3 show ?thesis
          by (auto simp: write_step2_unfold [of w d btw] w2_def [symmetric] step_rel_mem_free)
      next
        case True
        have ih: "(write_step2 w3 (drop (GSM_CFG_CONN_MAX_DATA_LEN w) d) (btw - GSM_CFG_CONN_MAX_DATA_LEN w) = Inl (r, w') \<longrightarrow> step_rel w3 w')
           \<and> (write_step2 w3 (drop (GSM_CFG_CONN_MAX_DATA_LEN w) d) (btw - GSM_CFG_CONN_MAX_DATA_LEN w) = Inr (w', d', btw') \<longrightarrow> step_rel w3 w')"
          using "1.IH" [OF refl le al [symmetric] Some w2_def cs [symmetric]] True
          by simp
        with le al Some cs s3 True show ?thesis
          by (auto simp: write_step2_unfold [of w d btw] w2_def [symmetric] intro: step_rel_trans)
      qed
    qed
  qed
qed

lemma step_rel_write_step3:
  "(write_step3 w d btw = Inl (r, w') \<longrightarrow> step_rel w w')
   \<and> (write_step3 w d btw = Inr w' \<longrightarrow> step_rel w w')"
  by (auto simp: write_step3_def Let_def case_prod_beta split: option.splits if_splits
      intro!: step_rel_intros step_rel_conn_upd)

lemma step_rel_write: "step_rel w (snd (snd (gsm_conn_write w c data btw flush ma)))"
proof (cases "c = NULL")
  case True
  then show ?thesis by (simp add: gsm_conn_write_def step_rel_refl)
next
  case False
  obtain w1 d1 btw1 where s1: "write_step1 w data btw flush = (w1, d1, btw1)"
    by (cases "write_step1 w data btw flush")
  have r1: "step_rel w w1" using step_rel_write_step1 [of w data btw flush] s1 by simp
  show ?thesis
  proof (cases "write_step2 w1 d1 btw1")
    case (Inl x)
    then obtain r w2 where "write_step2 w1 d1 btw1 = Inl (r, w2)" by (cases x) auto
    with r1 step_rel_write_step2 [of w1 d1 btw1 r w2] False s1 show ?thesis
      by (auto simp: gsm_conn_write_def intro: step_rel_trans)
  next
    case (Inr y)
    then obtain w2 d2 btw2 where s2: "write_step2 w1 d1 btw1 = Inr (w2, d2, btw2)" by (cases y) auto
    with r1 step_rel_write_step2 [of w1 d1 btw1 _ w2 d2 btw2] have r2: "step_rel w w2"
      by (auto intro: step_rel_trans)
    show ?thesis
    proof (cases "write_step3 w2 d2 btw2")
      case (Inl x)
      then obtain r w3 where "write_step3 w2 d2 btw2 = Inl (r, w3)" by (cases x) auto
      with r2 step_rel_write_step3 [of w2 d2 btw2 r w3] False s1 s2 show ?thesis
        by (auto simp: gsm_conn_write_def intro: step_rel_trans)
    next
      case (Inr w3)
      with r2 step_rel_write_step3 [of w2 d2 btw2 _ w3] have r3: "step_rel w w3"
        by (auto intro: step_rel_trans)
      with False s1 s2 Inr show ?thesis
        by (auto simp: gsm_conn_write_def Let_def intro: step_rel_snd_flush_buff)
    qed
  qed
qed

lemma step_rel_exec: "step_rel w (exec call w)"
proof (cases call)
  case Call_conn_timeout_cb
  then show ?thesis
    by (auto simp: conn_timeout_cb_def gsm_timeout_add_def gsmi_send_conn_cb_def step_rel_refl ev_ok_def
        intro!: step_rel_app [where new = "[EvConnCb GSM_EVT_CONN_POLL, EvTimeoutAdd (GSM_CFG_CONN_POLL_INTERVAL w)]"])
next
  case Call_gsmi_conn_start_timeout
  then show ?thesis
    by (auto simp: gsmi_conn_start_timeout_def gsm_timeout_add_def ev_ok_def
        intro!: step_rel_app [where new = "[EvTimeoutAdd (GSM_CFG_CONN_POLL_INTERVAL w)]"])
qed (auto simp: step_rel_start step_rel_close step_rel_sendto step_rel_send step_rel_status
       step_rel_write step_rel_refl gsm_conn_set_arg_def gsm_conn_get_arg_def
       gsm_conn_is_client_def gsm_conn_is_server_def gsm_conn_is_active_def gsm_conn_is_closed_def
       gsm_conn_get_total_recved_count_def gsm_conn_get_remote_ip_def gsm_conn_get_remote_port_def
       gsm_conn_get_local_port_def gsmi_conn_init_def gsm_conn_recved_def Let_def
     intro!: step_rel_intros step_rel_relock step_rel_conn_upd)

subsection \<open>Closing a connection\<close>

lemma close_submits_flush_buff [simp]:
  "close_submits (trace (snd (flush_buff w c))) = close_submits (trace w)"
proof (cases "c = NULL \<or> buff (conn w) = None")
  case True
  then show ?thesis by (auto simp: flush_buff_none)
next
  case False
  then obtain a where "c \<noteq> NULL" "buff (conn w) = Some a" by auto
  then show ?thesis
    by (cases "buff_ptr (conn w) = 0")
       (simp_all add: flush_buff_empty flush_buff_data Let_def close_submits_def gsm_mem_free_def
          split: option.splits)
qed

lemma lock_flush_buff [simp]: "lock (snd (flush_buff w c)) = lock w"
  by (rule step_rel_lock [OF step_rel_flush_buff1])

lemma close_submits_append [simp]:
  "close_submits (xs @ ys) = close_submits xs @ close_submits ys"
  by (simp add: close_submits_def)

lemma close_submits_frame [simp]:
  "close_submits (trace (snd (GSM_MSG_VAR_ALLOC w))) = close_submits (trace w)"
  "close_submits (trace (snd (conn_get_val_id w))) = close_submits (trace w)"
  by (simp_all add: prim_defs Let_def close_submits_def)

lemma gsm_conn_close_rejected:
  "in_closing (conn w) \<or> \<not> active (conn w) \<Longrightarrow> gsm_conn_close w PTR b = (gsmERR, w)"
  by (auto simp: gsm_conn_close_def Let_def)

lemma gsm_conn_close_accepted:
  assumes "gsm_conn_close w PTR 0 = (gsmOK, w1)"
  shows "in_closing (conn w1)"
    and "close_submits (trace w1) = close_submits (trace w) @ [EvSubmit (GSM_CMD_CIPCLOSE (val_id (conn w))) (lock w) 0 1000 gsmOK]"
  using assms
  by (auto simp: gsm_conn_close_def Let_def case_prod_beta
        gsmi_send_msg_to_producer_mbox_def GSM_CORE_UNPROTECT_def GSM_CORE_PROTECT_def
        split: if_splits bool.splits)
     (simp_all add: close_submits_def)

lemma oracle_frame [simp]:
  "mbox_res (GSM_CORE_PROTECT w) = mbox_res w"
  "mbox_res (GSM_CORE_UNPROTECT w) = mbox_res w"
  "mbox_res (snd (GSM_MSG_VAR_ALLOC w)) = mbox_res w"
  "mbox_res (snd (conn_get_val_id w)) = mbox_res w"
  "mbox_res (snd (gsmi_send_msg_to_producer_mbox w m b t)) = mbox_res w"
  "mbox_res (snd (gsm_mem_alloc w n)) = mbox_res w"
  "mbox_res (gsm_mem_free w a) = mbox_res w"
  "mbox_res (GSM_MEMCPY w a off d n) = mbox_res w"
  "mbox_res (snd (conn_send w c ip port data btw bw fau blocking)) = mbox_res w"
  "alloc_ok (GSM_CORE_PROTECT w) = alloc_ok w"
  "alloc_ok (GSM_CORE_UNPROTECT w) = alloc_ok w"
  "alloc_ok (snd (GSM_MSG_VAR_ALLOC w)) = alloc_ok w"
  "alloc_ok (snd (conn_get_val_id w)) = alloc_ok w"
  "alloc_ok (snd (gsmi_send_msg_to_producer_mbox w m b t)) = alloc_ok w"
  "alloc_ok (snd (gsm_mem_alloc w n)) = alloc_ok w"
  "alloc_ok (gsm_mem_free w a) = alloc_ok w"
  "alloc_ok (GSM_MEMCPY w a off d n) = alloc_ok w"
  "alloc_ok (snd (conn_send w c ip port data btw bw fau blocking)) = alloc_ok w"
  by (simp_all add: prim_defs Let_def gsm_mem_alloc_def gsm_mem_free_def GSM_MEMCPY_def
      conn_send_closed split: option.splits)

lemma oracle_flush_buff [simp]:
  "mbox_res (snd (flush_buff w c)) = mbox_res w"
  "alloc_ok (snd (flush_buff w c)) = alloc_ok w"
proof -
  show "mbox_res (snd (flush_buff w c)) = mbox_res w"
  proof (cases "c = NULL \<or> buff (conn w) = None")
    case True
    then show ?thesis by (auto simp: flush_buff_none)
  next
    case False
    then obtain a where "c \<noteq> NULL" "buff (conn w) = Some a" by auto
    then show ?thesis
      by (cases "buff_ptr (conn w) = 0") (simp_all add: flush_buff_empty flush_buff_data Let_def)
  qed
  show "alloc_ok (snd (flush_buff w c)) = alloc_ok w"
  proof (cases "c = NULL \<or> buff (conn w) = None")
    case True
    then show ?thesis by (auto simp: flush_buff_none)
  next
    case False
    then obtain a where "c \<noteq> NULL" "buff (conn w) = Some a" by auto
    then show ?thesis
      by (cases "buff_ptr (conn w) = 0") (simp_all add: flush_buff_empty flush_buff_data Let_def)
  qed
qed

lemma gsm_conn_close_ok:
  "active (conn w) \<Longrightarrow> \<not> in_closing (conn w) \<Longrightarrow> alloc_ok w (n_alloc w)
    \<Longrightarrow> \<forall>k. mbox_res w k = gsmOK \<Longrightarrow> fst (gsm_conn_close w PTR 0) = gsmOK"
  by (simp add: gsm_conn_close_def Let_def case_prod_beta gsmi_send_msg_to_producer_mbox_def
      GSM_MSG_VAR_ALLOC_def)

lemma write_step2_exit:
  "btw < GSM_CFG_CONN_MAX_DATA_LEN w \<Longrightarrow> write_step2 w d btw = Inr (w, d, btw)"
  by (simp add: write_step2_unfold)

subsection \<open>Where the bytes of a write go\<close>

lemma dispatched_simps [simp]:
  "dispatched [] = []"
  "dispatched (e # es) = ev_bytes e @ dispatched es"
  "dispatched (xs @ ys) = dispatched xs @ dispatched ys"
  by (simp_all add: dispatched_def)

lemma dispatched_conn_send [simp]:
  "dispatched (trace (snd (conn_send w c ip port data btw bw fau blocking))) =
     dispatched (trace w) @ read_mem (heap w) data btw"
  by (simp add: conn_send_closed)

lemma dispatched_mem_free [simp]: "dispatched (trace (gsm_mem_free w a)) = dispatched (trace w)"
  by (simp add: gsm_mem_free_def split: option.splits)

lemma dispatched_mem_alloc [simp]:
  "dispatched (trace (snd (gsm_mem_alloc w n))) = dispatched (trace w)"
  by (simp add: gsm_mem_alloc_def)

lemma staged_no_buff [simp]: "buff (conn w) = None \<Longrightarrow> staged w = []"
  by (simp add: staged_def)

lemma buff_ok_no_buff [simp]: "buff (conn w) = None \<Longrightarrow> buff_ok w"
  by (simp add: buff_ok_def)

lemma flush_buff_cons:
  assumes "c \<noteq> NULL"
  shows "dispatched (trace (snd (flush_buff w c))) = dispatched (trace w) @ staged w"
proof (cases "buff (conn w)")
  case None
  then show ?thesis by (simp add: flush_buff_none)
next
  case (Some a)
  with assms show ?thesis
    by (cases "buff_ptr (conn w) = 0")
       (simp_all add: flush_buff_empty flush_buff_data Let_def staged_def split: option.splits)
qed

lemma take_split: "n \<le> m \<Longrightarrow> take n d @ take (m - n) (drop n d) = take m d"
  by (metis le_add_diff_inverse take_add)

lemma take_split2:
  "p \<le> l \<Longrightarrow> l - p \<le> m \<Longrightarrow> take (l - p) d @ take (m + p - l) (drop (l - p) d) = take m (d::'a list)"
  using take_split [of "l - p" m d] by (simp add: algebra_simps)

lemma write_step1_nat:
  "buff_ok w \<Longrightarrow>
   write_step1 w d btw flush =
     (case buff (conn w) of
        None \<Rightarrow> (w, d, btw)
      | Some a \<Rightarrow>
          let len = min (buff_len (conn w) - buff_ptr (conn w)) btw;
              w1 = GSM_MEMCPY w a (buff_ptr (conn w)) d len;
              d1 = drop len d;
              btw1 = btw - len;
              w2 = w1\<lparr>conn := (conn w1)\<lparr>buff_ptr := buff_ptr (conn w1) + len\<rparr>\<rparr>
          in if buff_ptr (conn w2) = buff_len (conn w2) \<or> flush \<noteq> 0
             then
               (case conn_send w2 PTR None 0 (HEAP a) (buff_ptr (conn w2)) False 1 0 of
                  (r, w3) \<Rightarrow>
                    let w4 = (if r \<noteq> gsmOK then gsm_mem_free w3 a else w3)
                    in (w4\<lparr>conn := (conn w4)\<lparr>buff := None\<rparr>\<rparr>, d1, btw1))
             else (w2, d1, btw1))"
  by (cases "buff (conn w)")
     (auto simp: write_step1_def buff_ok_def size_sub_def split: option.splits)

lemma write_step1_cons:
  assumes ok: "buff_ok w" and le: "btw \<le> length d"
    and st: "write_step1 w d btw flush = (w1, d1, btw1)"
  shows "dispatched (trace w1) @ staged w1 @ take btw1 d1 = dispatched (trace w) @ staged w @ take btw d"
    and "buff_ok w1" and "btw1 \<le> length d1" and "buff (conn w1) \<noteq> None \<longrightarrow> btw1 = 0"
proof -
  show "dispatched (trace w1) @ staged w1 @ take btw1 d1 = dispatched (trace w) @ staged w @ take btw d"
    using assms
    by (auto simp: write_step1_nat Let_def buff_ok_def staged_def GSM_MEMCPY_def case_prod_beta
          min_def take_split take_split2
        split: option.splits if_splits)
  show "buff_ok w1"
    using assms
    by (auto simp: write_step1_nat Let_def buff_ok_def GSM_MEMCPY_def case_prod_beta
          min_def
        split: option.splits if_splits)
  show "btw1 \<le> length d1"
    using assms
    by (auto simp: write_step1_nat Let_def case_prod_beta split: option.splits if_splits
        intro: diff_le_mono)
  show "buff (conn w1) \<noteq> None \<longrightarrow> btw1 = 0"
    using assms
    by (auto simp: write_step1_nat Let_def buff_ok_def case_prod_beta min_def
        split: option.splits if_splits)
qed

lemma write_step2_zero:
  assumes "write_step2 w d 0 = Inr (w', d', btw')"
  shows "w' = w \<and> d' = d \<and> btw' = 0"
  using assms
  by (auto simp: write_step2_unfold [of w d 0] conn_send_closed case_prod_beta
      split: if_splits option.splits prod.splits)

lemma write_step2_cons:
  "write_step2 w d btw = Inr (w', d', btw') \<Longrightarrow> btw \<le> length d \<Longrightarrow>
     dispatched (trace w') @ take btw' d' = dispatched (trace w) @ take btw d
     \<and> conn w' = conn w \<and> btw' \<le> length d'
     \<and> btw' < GSM_CFG_CONN_MAX_DATA_LEN w
     \<and> GSM_CFG_CONN_MAX_DATA_LEN w' = GSM_CFG_CONN_MAX_DATA_LEN w"
proof (induction w d btw rule: write_step2.induct)
  case (1 w d btw)
  let ?n = "GSM_CFG_CONN_MAX_DATA_LEN w"
  show ?case
  proof (cases "?n \<le> btw")
    case False
    with "1.prems" show ?thesis by (simp add: write_step2_unfold [of w d btw])
  next
    case True
    note le = this
    obtain p w1 where al: "gsm_mem_alloc w ?n = (p, w1)"
      by (cases "gsm_mem_alloc w ?n")
    show ?thesis
    proof (cases p)
      case None
      with le al "1.prems" show ?thesis by (simp add: write_step2_unfold [of w d btw])
    next
      case (Some b)
      define w2 where "w2 = GSM_MEMCPY w1 b 0 d ?n"
      obtain r3 w3 where cs: "conn_send w2 PTR None 0 (HEAP b) ?n False 1 0 = (r3, w3)"
        by (cases "conn_send w2 PTR None 0 (HEAP b) ?n False 1 0")
      have ok: "r3 = gsmOK"
        using le al Some cs "1.prems"
        by (auto simp: write_step2_unfold [of w d btw] w2_def split: if_splits)
      have rec: "write_step2 w3 (drop ?n d) (btw - ?n) = Inr (w', d', btw')"
        using le al Some cs ok "1.prems"
        by (simp add: write_step2_unfold [of w d btw] w2_def)
      have w1: "heap w1 b = Some (replicate ?n 0)" "trace w1 = trace w" "conn w1 = conn w"
          "GSM_CFG_CONN_MAX_DATA_LEN w1 = ?n"
        using al Some by (auto simp: gsm_mem_alloc_def split: if_splits)
      have nd: "?n \<le> length d" using le "1.prems" by simp
      have w2: "heap w2 b = Some (take ?n d)" "trace w2 = trace w" "conn w2 = conn w"
          "GSM_CFG_CONN_MAX_DATA_LEN w2 = ?n"
        using w1 nd by (simp_all add: w2_def GSM_MEMCPY_def)
      have w3: "dispatched (trace w3) = dispatched (trace w) @ take ?n d" "conn w3 = conn w"
          "GSM_CFG_CONN_MAX_DATA_LEN w3 = ?n"
        using dispatched_conn_send [of w2 PTR None 0 "HEAP b" ?n False 1 0]
          conn_frame(9) [of w2 PTR None 0 "HEAP b" ?n False 1 0]
          cfg_frame(4) [of w2 PTR None 0 "HEAP b" ?n False 1 0] cs w2
        by simp_all
      have ih: "dispatched (trace w') @ take btw' d' = dispatched (trace w3) @ take (btw - ?n) (drop ?n d)
         \<and> conn w' = conn w3 \<and> btw' \<le> length d'
         \<and> btw' < GSM_CFG_CONN_MAX_DATA_LEN w3
         \<and> GSM_CFG_CONN_MAX_DATA_LEN w' = GSM_CFG_CONN_MAX_DATA_LEN w3"
        using "1.IH" [OF refl le al [symmetric] Some w2_def cs [symmetric] _ rec] ok "1.prems"
        by simp
      with w3 le show ?thesis by (simp add: take_split)
    qed
  qed
qed

lemma write_step3_cons:
  assumes st: "write_step3 w d btw = Inr w'" and le: "btw \<le> length d"
    and mx: "btw < GSM_CFG_CONN_MAX_DATA_LEN w" and ok: "buff_ok w"
    and nb: "buff (conn w) \<noteq> None \<longrightarrow> btw = 0"
  shows "staged w' = staged w @ take btw d" and "dispatched (trace w') = dispatched (trace w)"
    and "buff_ok w'"
  using assms
  by (auto simp: write_step3_def Let_def gsm_mem_alloc_def GSM_MEMCPY_def staged_def buff_ok_def
      split: option.splits if_splits)

lemma write_step2_Inl: "write_step2 w d btw = Inl (r, w') \<Longrightarrow> r = gsmERRMEM"
proof (induction w d btw rule: write_step2.induct)
  case (1 w d btw)
  let ?n = "GSM_CFG_CONN_MAX_DATA_LEN w"
  show ?case
  proof (cases "?n \<le> btw")
    case False
    with "1.prems" show ?thesis by (simp add: write_step2_unfold [of w d btw])
  next
    case True
    note le = this
    obtain p w1 where al: "gsm_mem_alloc w ?n = (p, w1)"
      by (cases "gsm_mem_alloc w ?n")
    show ?thesis
    proof (cases p)
      case None
      with le al "1.prems" show ?thesis by (simp add: write_step2_unfold [of w d btw])
    next
      case (Some b)
      define w2 where "w2 = GSM_MEMCPY w1 b 0 d ?n"
      obtain r3 w3 where cs: "conn_send w2 PTR None 0 (HEAP b) ?n False 1 0 = (r3, w3)"
        by (cases "conn_send w2 PTR None 0 (HEAP b) ?n False 1 0")
      show ?thesis
      proof (cases "r3 = gsmOK")
        case False
        with le al Some cs "1.prems" show ?thesis
          by (simp add: write_step2_unfold [of w d btw] w2_def)
      next
        case True
        with le al Some cs "1.prems"
        have "write_step2 w3 (drop ?n d) (btw - ?n) = Inl (r, w')"
          by (simp add: write_step2_unfold [of w d btw] w2_def)
        with "1.IH" [OF refl le al [symmetric] Some w2_def cs [symmetric]] True
        show ?thesis by simp
      qed
    qed
  qed
qed

lemma write_step3_Inl: "write_step3 w d btw = Inl (r, w') \<Longrightarrow> r = gsmERRMEM"
  by (auto simp: write_step3_def Let_def split: option.splits if_splits prod.splits)

lemma gsm_conn_write_cons:
  assumes ok: "buff_ok w" and le: "btw \<le> length data"
    and wr: "gsm_conn_write w c data btw flush ma = (gsmOK, ma', w')"
  shows "dispatched (trace w') @ staged w' = dispatched (trace w) @ staged w @ take btw data"
    and "buff_ok w'"
proof -
  have c: "c = PTR" using wr by (cases c) (simp_all add: gsm_conn_write_def GSM_ASSERT_fail_def)
  obtain w1 d1 btw1 where s1: "write_step1 w data btw flush = (w1, d1, btw1)"
    by (cases "write_step1 w data btw flush")
  note r1 = write_step1_cons [OF ok le s1]
  obtain w2 d2 btw2 where s2: "write_step2 w1 d1 btw1 = Inr (w2, d2, btw2)"
    using wr c s1 by (cases "write_step2 w1 d1 btw1") (auto simp: gsm_conn_write_def dest: write_step2_Inl)
  note r2 = write_step2_cons [OF s2 r1(3)]
  have st2: "staged w2 = staged w1" "buff_ok w2"
  proof -
    show "staged w2 = staged w1"
    proof (cases "buff (conn w1)")
      case None
      with r2 show ?thesis by simp
    next
      case (Some a)
      with r1(4) s2 write_step2_zero [of w1 d1 w2 d2 btw2] show ?thesis by simp
    qed
    show "buff_ok w2"
    proof (cases "buff (conn w1)")
      case None
      with r2 show ?thesis by simp
    next
      case (Some a)
      with r1(4) s2 write_step2_zero [of w1 d1 w2 d2 btw2] r1(2) show ?thesis by simp
    qed
  qed
  obtain w3 where s3: "write_step3 w2 d2 btw2 = Inr w3"
    using wr c s1 s2 by (cases "write_step3 w2 d2 btw2") (auto simp: gsm_conn_write_def dest: write_step3_Inl)
  have nb2: "buff (conn w2) \<noteq> None \<longrightarrow> btw2 = 0"
  proof (cases "buff (conn w1)")
    case None
    with r2 show ?thesis by simp
  next
    case (Some a)
    with r1(4) s2 write_step2_zero [of w1 d1 w2 d2 btw2] show ?thesis by simp
  qed
  have mx2: "btw2 < GSM_CFG_CONN_MAX_DATA_LEN w2" using r2 by simp
  have le2: "btw2 \<le> length d2" using r2 by simp
  note r3 = write_step3_cons [OF s3 le2 mx2 st2(2) nb2]
  have w': "w' = (if flush \<noteq> 0 \<and> buff (conn w3) \<noteq> None then snd (flush_buff w3 PTR) else w3)"
    using wr c s1 s2 s3 by (simp add: gsm_conn_write_def Let_def)
  have fin: "dispatched (trace w') @ staged w' = dispatched (trace w3) @ staged w3" "buff_ok w'"
    using w' r3(3) by (simp_all add: flush_buff_cons)
  have "dispatched (trace w') @ staged w' = dispatched (trace w2) @ staged w2 @ take btw2 d2"
    using fin r3 by simp
  also have "\<dots> = dispatched (trace w1) @ staged w1 @ take btw1 d1"
  proof (cases "buff (conn w1)")
    case None
    with r2 show ?thesis by simp
  next
    case (Some a)
    with r1(4) s2 write_step2_zero [of w1 d1 w2 d2 btw2] show ?thesis by simp
  qed
  also have "\<dots> = dispatched (trace w) @ staged w @ take btw data"
    using r1 by simp
  finally show "dispatched (trace w') @ staged w' = dispatched (trace w) @ staged w @ take btw data" .
  show "buff_ok w'" by (rule fin)
qed

subsection \<open>Failed allocations during a write\<close>

lemma naf_conn_send: "ext no_alloc_fail w (snd (conn_send w c ip port data btw bw fau blocking))"
  by (auto simp: ext_def conn_send_closed no_alloc_fail_def)

lemma naf_flush_buff: "ext no_alloc_fail w (snd (flush_buff w c))"
proof (cases "c = NULL \<or> buff (conn w) = None")
  case True
  then show ?thesis by (auto simp: flush_buff_none ext_refl)
next
  case False
  then obtain a where "c \<noteq> NULL" "buff (conn w) = Some a" by auto
  then show ?thesis
    by (cases "buff_ptr (conn w) = 0")
       (auto simp: flush_buff_empty flush_buff_data Let_def ext_def gsm_mem_free_def
          no_alloc_fail_def split: option.splits)
qed

lemma naf_mem_free: "ext no_alloc_fail w (gsm_mem_free w a)"
  by (auto simp: ext_def gsm_mem_free_def no_alloc_fail_def split: option.splits)

lemma naf_same_trace: "trace w' = trace w \<Longrightarrow> ext no_alloc_fail w w'"
  by (simp add: ext_def)

lemma naf_write_step1: "ext no_alloc_fail w (fst (write_step1 w d btw flush))"
proof (cases "buff (conn w)")
  case None
  then show ?thesis by (simp add: write_step1_def ext_refl)
next
  case (Some a)
  let ?len = "min (size_sub (SIZE_MAX w) (buff_len (conn w)) (buff_ptr (conn w))) btw"
  let ?w1 = "GSM_MEMCPY w a (buff_ptr (conn w)) d ?len"
  let ?w2 = "?w1\<lparr>conn := (conn ?w1)\<lparr>buff_ptr := buff_ptr (conn ?w1) + ?len\<rparr>\<rparr>"
  let ?w3 = "snd (conn_send ?w2 PTR None 0 (HEAP a) (buff_ptr (conn ?w2)) False 1 0)"
  have e2: "ext no_alloc_fail w ?w2" by (rule naf_same_trace) simp
  have e3: "ext no_alloc_fail w ?w3" by (rule ext_trans [OF e2 naf_conn_send])
  have e4: "ext no_alloc_fail w (gsm_mem_free ?w3 a)" by (rule ext_trans [OF e3 naf_mem_free])
  have e5: "ext no_alloc_fail w (x\<lparr>conn := c'\<rparr>)" if "ext no_alloc_fail w x" for x c'
    by (rule ext_trans [OF that]) (rule naf_same_trace, simp)
  show ?thesis
    using Some e2 e3 e4 e5
    by (auto simp: write_step1_def Let_def case_prod_beta)
qed

lemma naf_write_step2:
  "write_step2 w d btw = Inr (w', d', btw') \<Longrightarrow> ext no_alloc_fail w w'"
proof (induction w d btw rule: write_step2.induct)
  case (1 w d btw)
  let ?n = "GSM_CFG_CONN_MAX_DATA_LEN w"
  show ?case
  proof (cases "?n \<le> btw")
    case False
    with "1.prems" show ?thesis by (simp add: write_step2_unfold [of w d btw] ext_refl)
  next
    case True
    note le = this
    obtain p w1 where al: "gsm_mem_alloc w ?n = (p, w1)"
      by (cases "gsm_mem_alloc w ?n")
    show ?thesis
    proof (cases p)
      case None
      with le al "1.prems" show ?thesis by (simp add: write_step2_unfold [of w d btw])
    next
      case (Some b)
      define w2 where "w2 = GSM_MEMCPY w1 b 0 d ?n"
      obtain r3 w3 where cs: "conn_send w2 PTR None 0 (HEAP b) ?n False 1 0 = (r3, w3)"
        by (cases "conn_send w2 PTR None 0 (HEAP b) ?n False 1 0")
      have ok: "r3 = gsmOK"
        using le al Some cs "1.prems"
        by (auto simp: write_step2_unfold [of w d btw] w2_def split: if_splits)
      have rec: "write_step2 w3 (drop ?n d) (btw - ?n) = Inr (w', d', btw')"
        using le al Some cs ok "1.prems"
        by (simp add: write_step2_unfold [of w d btw] w2_def)
      have "trace w2 = trace w"
        using al Some by (auto simp: w2_def gsm_mem_alloc_def split: if_splits)
      then have e2: "ext no_alloc_fail w w2" by (rule naf_same_trace)
      have e3: "ext no_alloc_fail w2 w3"
        using naf_conn_send [of w2 PTR None 0 "HEAP b" ?n False 1 0] cs by simp
      have "ext no_alloc_fail w3 w'"
        using "1.IH" [OF refl le al [symmetric] Some w2_def cs [symmetric] _ rec] ok by simp
      with e2 e3 show ?thesis by (blast intro: ext_trans)
    qed
  qed
qed

lemma naf_write_step3:
  "write_step3 w d btw = Inr w' \<Longrightarrow> buff (conn w') \<noteq> None \<Longrightarrow> ext no_alloc_fail w w'"
  by (auto simp: write_step3_def Let_def gsm_mem_alloc_def ext_def split: option.splits if_splits)

lemma nmf_same_trace: "trace w' = trace w \<Longrightarrow> ext no_msg_fail w w'"
  by (simp add: ext_def)

lemma nmf_conn_send_ok:
  "conn_send w c ip port data btw bw fau blocking = (gsmOK, w') \<Longrightarrow> ext no_msg_fail w w'"
  by (auto simp: ext_def conn_send_closed no_msg_fail_def split: if_splits)

lemma nmf_write_step2:
  "write_step2 w d btw = Inr (w', d', btw') \<Longrightarrow> ext no_msg_fail w w'"
proof (induction w d btw rule: write_step2.induct)
  case (1 w d btw)
  let ?n = "GSM_CFG_CONN_MAX_DATA_LEN w"
  show ?case
  proof (cases "?n \<le> btw")
    case False
    with "1.prems" show ?thesis by (simp add: write_step2_unfold [of w d btw] ext_refl)
  next
    case True
    note le = this
    obtain p w1 where al: "gsm_mem_alloc w ?n = (p, w1)"
      by (cases "gsm_mem_alloc w ?n")
    show ?thesis
    proof (cases p)
      case None
      with le al "1.prems" show ?thesis by (simp add: write_step2_unfold [of w d btw])
    next
      case (Some b)
      define w2 where "w2 = GSM_MEMCPY w1 b 0 d ?n"
      obtain r3 w3 where cs: "conn_send w2 PTR None 0 (HEAP b) ?n False 1 0 = (r3, w3)"
        by (cases "conn_send w2 PTR None 0 (HEAP b) ?n False 1 0")
      have ok: "r3 = gsmOK"
        using le al Some cs "1.prems"
        by (auto simp: write_step2_unfold [of w d btw] w2_def split: if_splits)
      have rec: "write_step2 w3 (drop ?n d) (btw - ?n) = Inr (w', d', btw')"
        using le al Some cs ok "1.prems"
        by (simp add: write_step2_unfold [of w d btw] w2_def)
      have "trace w2 = trace w"
        using al Some by (auto simp: w2_def gsm_mem_alloc_def split: if_splits)
      then have e2: "ext no_msg_fail w w2" by (rule nmf_same_trace)
      have e3: "ext no_msg_fail w2 w3"
        using cs ok by (auto intro: nmf_conn_send_ok)
      have "ext no_msg_fail w3 w'"
        using "1.IH" [OF refl le al [symmetric] Some w2_def cs [symmetric] _ rec] ok by simp
      with e2 e3 show ?thesis by (blast intro: ext_trans)
    qed
  qed
qed

lemma nmf_write_step3:
  "write_step3 w d btw = Inr w' \<Longrightarrow> ext no_msg_fail w w'"
  by (auto simp: write_step3_def Let_def gsm_mem_alloc_def ext_def no_msg_fail_def
      split: option.splits if_splits)

lemma flush_buff_drops_buffer:
  "c \<noteq> NULL \<Longrightarrow> buff (conn (snd (flush_buff w c))) = None"
  by (cases "buff (conn w)"; cases "buff_ptr (conn w) = 0")
     (auto simp: flush_buff_none flush_buff_empty flush_buff_data Let_def gsm_mem_free_def
        split: option.splits)

subsection \<open>The poll timeout\<close>

text \<open>
  Claim C8. Each firing of \<open>conn_timeout_cb\<close> delivers a poll event to the connection and
  schedules itself again exactly when the connection is active at that moment: the events
  it appends are the poll callback followed by the new timeout when the connection is
  active, and none otherwise. When the connection is not active the callback changes
  nothing at all, so no further firing is scheduled and the chain of callbacks ends.
\<close>

theorem conn_timeout_cb_polls_iff_active:
  "new_events w (conn_timeout_cb w) =
     (if active (conn w)
      then [EvConnCb GSM_EVT_CONN_POLL, EvTimeoutAdd (GSM_CFG_CONN_POLL_INTERVAL w)]
      else [])
   \<and> (EvTimeoutAdd (GSM_CFG_CONN_POLL_INTERVAL w) \<in> set (new_events w (conn_timeout_cb w))
        \<longleftrightarrow> active (conn w))
   \<and> (EvConnCb GSM_EVT_CONN_POLL \<in> set (new_events w (conn_timeout_cb w))
        \<longleftrightarrow> active (conn w))
   \<and> (\<not> active (conn w) \<longrightarrow> conn_timeout_cb w = w)"
  by (simp add: conn_timeout_cb_def gsm_timeout_add_def gsmi_send_conn_cb_def new_events_def)

theorem conn_timeout_cb_polls_iff_active_witness:
  "new_events world0 (conn_timeout_cb world0) = [EvConnCb GSM_EVT_CONN_POLL, EvTimeoutAdd 500]
   \<and> \<not> active (conn world_inactive)
   \<and> conn_timeout_cb world_inactive = world_inactive"
  using conn_timeout_cb_polls_iff_active [of world0]
    conn_timeout_cb_polls_iff_active [of world_inactive]
  by (simp add: world0_defs)

subsection \<open>The status predicates\<close>

text \<open>
  Claim C10. For a non-null handle that \<open>gsmi_is_valid_conn_ptr\<close> accepts,
  \<open>gsm_conn_is_closed\<close> returns 1 exactly when \<open>gsm_conn_is_active\<close> returns 0, and each of
  them returns 0 or 1; a connection that is in closing state and still flagged active is
  reported active and not closed; for a null or invalid handle both return 0.
\<close>

theorem is_closed_complements_is_active:
  "(c \<noteq> NULL \<and> gsmi_is_valid_conn_ptr w c \<longrightarrow>
      (fst (gsm_conn_is_closed w c) = 1 \<longleftrightarrow> fst (gsm_conn_is_active w c) = 0)
      \<and> fst (gsm_conn_is_active w c) \<in> {0, 1}
      \<and> fst (gsm_conn_is_closed w c) \<in> {0, 1}
      \<and> (in_closing (conn w) \<and> active (conn w) \<longrightarrow>
            fst (gsm_conn_is_active w c) = 1 \<and> fst (gsm_conn_is_closed w c) = 0))
   \<and> (c = NULL \<or> \<not> gsmi_is_valid_conn_ptr w c \<longrightarrow>
        fst (gsm_conn_is_active w c) = 0 \<and> fst (gsm_conn_is_closed w c) = 0)"
  by (simp add: gsm_conn_is_closed_def gsm_conn_is_active_def Let_def GSM_CORE_PROTECT_def)

theorem is_closed_complements_is_active_witness:
  "gsmi_is_valid_conn_ptr world0 PTR
   \<and> fst (gsm_conn_is_active world0 PTR) = 1 \<and> fst (gsm_conn_is_closed world0 PTR) = 0
   \<and> in_closing (conn (world0\<lparr>conn := conn0\<lparr>in_closing := True\<rparr>\<rparr>))
   \<and> fst (gsm_conn_is_active (world0\<lparr>conn := conn0\<lparr>in_closing := True\<rparr>\<rparr>) PTR) = 1
   \<and> fst (gsm_conn_is_closed (world0\<lparr>conn := conn0\<lparr>in_closing := True\<rparr>\<rparr>) PTR) = 0
   \<and> fst (gsm_conn_is_active world0 NULL) = 0 \<and> fst (gsm_conn_is_closed world0 NULL) = 0
   \<and> \<not> gsmi_is_valid_conn_ptr (world0\<lparr>conn_ptr_valid := False\<rparr>) PTR
   \<and> fst (gsm_conn_is_active (world0\<lparr>conn_ptr_valid := False\<rparr>) PTR) = 0
   \<and> fst (gsm_conn_is_closed (world0\<lparr>conn_ptr_valid := False\<rparr>) PTR) = 0"
  using is_closed_complements_is_active [of PTR world0]
    is_closed_complements_is_active [of PTR "world0\<lparr>conn := conn0\<lparr>in_closing := True\<rparr>\<rparr>"]
    is_closed_complements_is_active [of NULL world0]
    is_closed_complements_is_active [of PTR "world0\<lparr>conn_ptr_valid := False\<rparr>"]
  by (simp add: world0_defs gsmi_is_valid_conn_ptr_def gsm_conn_is_active_def
      gsm_conn_is_closed_def Let_def GSM_CORE_PROTECT_def)

subsection \<open>The core lock and the producer queue\<close>

text \<open>
  Claim C9, as stated: the core lock is never held across a submission to the producer
  queue. It fails for \<open>flush_buff\<close>, which calls \<open>conn_send\<close> between
  \<open>GSM_CORE_PROTECT\<close> and \<open>GSM_CORE_UNPROTECT\<close>: entered with the lock free and one staged
  byte, it hands the send command to the mailbox while the lock has depth 1.
\<close>

theorem flush_buff_submits_under_lock:
  "lock world_staged = 0
   \<and> new_events world_staged (exec (Call_flush_buff PTR) world_staged) =
       [EvDispatch [9] 1 0, EvValRead 2,
        EvSubmit (GSM_CMD_CIPSEND (HEAP 0) [9] 1 False None 0 1 7) 1 0 60000 gsmOK]
   \<and> \<not> list_all (submit_unlocked (lock world_staged))
          (new_events world_staged (exec (Call_flush_buff PTR) world_staged))"
  by (simp add: flush_buff_data world_staged_def world0_defs Let_def new_events_def)

text \<open>
  Claim C9, amended. Every call of this layer returns with the core lock at the depth it
  was entered with, whatever path it takes. Every submission to the producer queue is made
  either at that depth, outside the critical sections of the call, or one level deeper, and
  then it is the send that \<open>flush_buff\<close> makes inside its critical section: a non-blocking
  (\<open>blocking = 0\<close>), free-after-use send of the heap buffer. So the lock is never held across
  a blocking submission.
\<close>

theorem lock_released_and_submissions:
  "lock (exec call w) = lock w
   \<and> list_all (submit_lock_ok (lock w)) (new_events w (exec call w))"
  using step_rel_exec [of w call]
  by (auto simp: step_rel_def ev_ok_def list_all_iff dest!: ext_new_events)

theorem lock_released_and_submissions_witness:
  "lock (exec (Call_gsm_conn_close PTR 0) world_staged) = 0
   \<and> list_all (submit_lock_ok 0)
        (new_events world_staged (exec (Call_gsm_conn_close PTR 0) world_staged))"
  using lock_released_and_submissions [of "Call_gsm_conn_close PTR 0" world_staged]
  by (simp add: world_staged_def world0_defs)

subsection \<open>The validation id in queued commands\<close>

text \<open>
  Claim C3. Whatever call of this layer is made, every send command and every close command
  it hands to the producer queue carries the validation id of the connection, which no call
  changes; and every read of the validation id happens while the core lock is held (at a
  depth above 0), as \<open>conn_get_val_id\<close> does it.
\<close>

theorem commands_carry_val_id:
  "val_id (conn (exec call w)) = val_id (conn w)
   \<and> list_all (carries_val_id (val_id (conn w))) (new_events w (exec call w))
   \<and> list_all (read_under_lock 0) (new_events w (exec call w))"
proof -
  have "read_under_lock 0 e" if "read_under_lock (lock w) e" for e
    using that by (cases e) auto
  with step_rel_exec [of w call] show ?thesis
    by (auto simp: step_rel_def ev_ok_def list_all_iff dest!: ext_new_events)
qed

theorem commands_carry_val_id_witness:
  "val_id (conn world_staged) = 7
   \<and> new_events world_staged (exec (Call_gsm_conn_close PTR 0) world_staged) =
       [EvValRead 1, EvDispatch [9] 1 0, EvValRead 2,
        EvSubmit (GSM_CMD_CIPSEND (HEAP 0) [9] 1 False None 0 1 7) 1 0 60000 gsmOK,
        EvSubmit (GSM_CMD_CIPCLOSE 7) 0 0 1000 gsmOK]
   \<and> list_all (carries_val_id 7)
        (new_events world_staged (exec (Call_gsm_conn_close PTR 0) world_staged))
   \<and> list_all (read_under_lock 0)
        (new_events world_staged (exec (Call_gsm_conn_close PTR 0) world_staged))"
  using commands_carry_val_id [of "Call_gsm_conn_close PTR 0" world_staged]
  by (simp add: world_staged_def world0_defs gsm_conn_close_def prim_defs flush_buff_data
      Let_def new_events_def)

subsection \<open>The status returned by \<open>flush_buff\<close>\<close>

text \<open>
  Claim C7. The claim holds where a buffer exists: see \<open>flush_buff_empty\<close> (no staged
  byte: \<open>gsmERR\<close>, buffer freed and detached) and \<open>flush_buff_data\<close> (the status is that of
  the dispatch, buffer detached). It fails where the connection has no buffer at all: the
  result variable is initialised to \<open>gsmOK\<close> and the guarded block is skipped, so the
  function returns \<open>gsmOK\<close> although nothing was flushed or queued.
\<close>

theorem flush_buff_no_buffer_returns_gsmOK:
  "buff (conn world0) = None \<and> flush_buff world0 PTR = (gsmOK, world0)"
  by (simp add: flush_buff_none world0_defs)

subsection \<open>Closing twice\<close>

text \<open>
  Claim C2. When a non-blocking \<open>gsm_conn_close\<close> returns \<open>gsmOK\<close> (the close command is in
  the queue and has not completed), a second \<open>gsm_conn_close\<close>, blocking or not, returns
  \<open>gsmERR\<close> and leaves the world as it is, so that over both calls exactly one close command
  was handed to the producer queue, and it was accepted. A close of a connection that is in
  closing state or not active returns \<open>gsmERR\<close> with the world unchanged: nothing is
  allocated, nothing is queued. The first close does return \<open>gsmOK\<close> on an active connection
  not in closing state when the envelope can be allocated and the queue accepts.
\<close>

theorem gsm_conn_close_twice:
  "(gsm_conn_close w PTR 0 = (gsmOK, w1) \<longrightarrow>
       gsm_conn_close w1 PTR b2 = (gsmERR, w1)
     \<and> close_submits (trace w1) =
         close_submits (trace w)
         @ [EvSubmit (GSM_CMD_CIPCLOSE (val_id (conn w))) (lock w) 0 1000 gsmOK])
   \<and> (in_closing (conn w) \<or> \<not> active (conn w) \<longrightarrow> gsm_conn_close w PTR b = (gsmERR, w))
   \<and> (active (conn w) \<and> \<not> in_closing (conn w) \<and> alloc_ok w (n_alloc w)
        \<and> (\<forall>k. mbox_res w k = gsmOK)
        \<longrightarrow> fst (gsm_conn_close w PTR 0) = gsmOK)"
  using gsm_conn_close_accepted [of w w1] gsm_conn_close_rejected [of w1 b2]
    gsm_conn_close_rejected [of w b] gsm_conn_close_ok [of w]
  by blast

theorem gsm_conn_close_twice_witness:
  "fst (gsm_conn_close world_staged PTR 0) = gsmOK
   \<and> gsm_conn_close (snd (gsm_conn_close world_staged PTR 0)) PTR 0
       = (gsmERR, snd (gsm_conn_close world_staged PTR 0))
   \<and> close_submits (trace (snd (gsm_conn_close world_staged PTR 0)))
       = [EvSubmit (GSM_CMD_CIPCLOSE 7) 0 0 1000 gsmOK]
   \<and> \<not> active (conn world_inactive)
   \<and> gsm_conn_close world_inactive PTR 1 = (gsmERR, world_inactive)"
  using gsm_conn_close_twice [of world_staged "snd (gsm_conn_close world_staged PTR 0)" 0 0]
    gsm_conn_close_twice [of world_inactive world_inactive 0 1]
  by (simp add: world_staged_def world0_defs gsm_conn_close_def prim_defs flush_buff_data
      Let_def close_submits_def)

subsection \<open>Two boundary cases of \<open>gsm_conn_write\<close>\<close>

text \<open>
  Claim C4. A write of length zero with the flush flag set, on a connection with no write
  buffer, when the buffer allocation succeeds (and the chunk size is positive): step 3
  allocates a buffer and copies nothing into it; step 4 calls \<open>flush_buff\<close>, which finds no
  staged byte, dispatches nothing and frees the buffer, once; the call returns \<open>gsmOK\<close> and
  reports 0 available bytes. The only event is that one \<open>gsm_mem_free\<close> of the buffer just
  allocated, the fault flag is as before, and the connection has no buffer afterwards.
\<close>

theorem gsm_conn_write_zero_length_flush:
  assumes "buff (conn w) = None" and "0 < GSM_CFG_CONN_MAX_DATA_LEN w"
    and "alloc_ok w (n_alloc w)" and "flush \<noteq> 0"
  shows "gsm_conn_write w PTR data 0 flush ma =
           (gsmOK, (case ma of None \<Rightarrow> None | Some old \<Rightarrow> Some 0),
            w\<lparr>conn := (conn w)\<lparr>buff := None,
                    buff_len := GSM_CFG_CONN_MAX_DATA_LEN w, buff_ptr := 0\<rparr>,
              heap := (heap w)(next_addr w := None),
              next_addr := Suc (next_addr w), n_alloc := Suc (n_alloc w),
              trace := trace w @ [EvFree (next_addr w)]\<rparr>)
         \<and> new_events w (snd (snd (gsm_conn_write w PTR data 0 flush ma))) = [EvFree (next_addr w)]
         \<and> fault (snd (snd (gsm_conn_write w PTR data 0 flush ma))) = fault w"
  using assms
  by (simp add: gsm_conn_write_def write_step1_def write_step2_exit write_step3_def
      gsm_mem_alloc_def flush_buff_empty gsm_mem_free_def Let_def new_events_def
      split: option.splits)

theorem gsm_conn_write_zero_length_flush_witness:
  "buff (conn world0) = None \<and> 0 < GSM_CFG_CONN_MAX_DATA_LEN world0
   \<and> alloc_ok world0 (n_alloc world0)
   \<and> gsm_conn_write world0 PTR [] 0 1 (Some 9) =
        (gsmOK, Some 0,
         world0\<lparr>conn := conn0\<lparr>buff_len := 4\<rparr>, next_addr := 1, n_alloc := 1,
                trace := [EvFree 0]\<rparr>)
   \<and> \<not> fault (snd (snd (gsm_conn_write world0 PTR [] 0 1 (Some 9))))"
  using gsm_conn_write_zero_length_flush [of world0 1 "[]" "Some 9"]
  by (simp add: world0_defs)

text \<open>
  Claim C5. A write of exactly \<open>GSM_CFG_CONN_MAX_DATA_LEN\<close> bytes with the flush flag clear,
  on a connection with no write buffer, when the chunk buffer and the envelope can be
  allocated and the queue accepts: the call returns \<open>gsmOK\<close>; exactly one send is
  dispatched, of the whole input, free-after-use (\<open>fau = 1\<close>) and non-blocking; and the write
  buffer holds zero bytes afterwards (\<open>buff.ptr = 0\<close>, nothing staged), whether the
  allocation of the new staging buffer in step 3 succeeds or not.
\<close>

theorem gsm_conn_write_exact_chunk:
  assumes "buff (conn w) = None" and "0 < GSM_CFG_CONN_MAX_DATA_LEN w"
    and "GSM_CFG_CONN_MAX_DATA_LEN w \<le> length data"
    and "alloc_ok w (n_alloc w)" and "alloc_ok w (Suc (n_alloc w))"
    and "mbox_res w (n_sub w) = gsmOK"
    and "w' = snd (snd (gsm_conn_write w PTR data (GSM_CFG_CONN_MAX_DATA_LEN w) 0 ma))"
  shows "fst (gsm_conn_write w PTR data (GSM_CFG_CONN_MAX_DATA_LEN w) 0 ma) = gsmOK
     \<and> new_events w w' =
           [EvDispatch (take (GSM_CFG_CONN_MAX_DATA_LEN w) data) 1 0,
            EvValRead (Suc (lock w)),
            EvSubmit (GSM_CMD_CIPSEND (HEAP (next_addr w)) (take (GSM_CFG_CONN_MAX_DATA_LEN w) data)
                        (GSM_CFG_CONN_MAX_DATA_LEN w) False None 0 1 (val_id (conn w)))
               (lock w) 0 60000 gsmOK]
           @ (if alloc_ok w (Suc (Suc (n_alloc w))) then [] else [EvMemAllocFail])
     \<and> buff_ptr (conn w') = 0 \<and> staged w' = []
     \<and> (buff (conn w') \<noteq> None \<longleftrightarrow> alloc_ok w (Suc (Suc (n_alloc w))))
     \<and> fst (snd (gsm_conn_write w PTR data (GSM_CFG_CONN_MAX_DATA_LEN w) 0 ma)) =
         (case ma of
            None \<Rightarrow> None
          | Some old \<Rightarrow>
              Some (if alloc_ok w (Suc (Suc (n_alloc w))) then GSM_CFG_CONN_MAX_DATA_LEN w else 0))"
  using assms
  by (simp add: gsm_conn_write_def write_step1_def write_step2_unfold [of w] write_step2_exit
      write_step3_def gsm_mem_alloc_def GSM_MEMCPY_def conn_send_closed Let_def new_events_def
      staged_def split: option.splits)

theorem gsm_conn_write_exact_chunk_witness:
  "buff (conn world0) = None \<and> GSM_CFG_CONN_MAX_DATA_LEN world0 = 4
   \<and> fst (gsm_conn_write world0 PTR [1, 2, 3, 4] 4 0 (Some 9)) = gsmOK
   \<and> new_events world0 (snd (snd (gsm_conn_write world0 PTR [1, 2, 3, 4] 4 0 (Some 9)))) =
       [EvDispatch [1, 2, 3, 4] 1 0, EvValRead 1,
        EvSubmit (GSM_CMD_CIPSEND (HEAP 0) [1, 2, 3, 4] 4 False None 0 1 7) 0 0 60000 gsmOK]
   \<and> staged (snd (snd (gsm_conn_write world0 PTR [1, 2, 3, 4] 4 0 (Some 9)))) = []
   \<and> fst (snd (gsm_conn_write world0 PTR [1, 2, 3, 4] 4 0 (Some 9))) = Some 4"
  using gsm_conn_write_exact_chunk [of world0 "[1, 2, 3, 4]"
      "snd (snd (gsm_conn_write world0 PTR [1, 2, 3, 4] 4 0 (Some 9)))" "Some 9"]
  by (simp add: world0_defs)

subsection \<open>A write conserves the bytes, in order\<close>

text \<open>
  Claim C1, as stated: over one call of \<open>gsm_conn_write\<close> that returns \<open>gsmOK\<close>, the bytes
  handed to the dispatcher plus the bytes left staged number \<open>btw\<close>, and they are the input.
  It fails when the connection already holds staged bytes: the send of step 1.1 carries
  them as well. With one byte staged, a flushing write of one byte dispatches two bytes.
\<close>

theorem gsm_conn_write_counts_staged_bytes:
  "buff_ok world_staged \<and> staged world_staged = [9]
   \<and> fst (gsm_conn_write world_staged PTR [5] 1 1 None) = gsmOK
   \<and> dispatched (new_events world_staged (snd (snd (gsm_conn_write world_staged PTR [5] 1 1 None))))
       = [9, 5]
   \<and> staged (snd (snd (gsm_conn_write world_staged PTR [5] 1 1 None))) = []
   \<and> length (dispatched
         (new_events world_staged (snd (snd (gsm_conn_write world_staged PTR [5] 1 1 None)))))
       + length (staged (snd (snd (gsm_conn_write world_staged PTR [5] 1 1 None)))) \<noteq> 1"
  by (simp add: world_staged_def world0_defs buff_ok_def staged_def gsm_conn_write_def
      write_step1_def write_step2_exit write_step3_def GSM_MEMCPY_def conn_send_closed
      gsm_mem_alloc_def flush_buff_empty gsm_mem_free_def Let_def new_events_def)

text \<open>
  Claim C1, amended. For a call of \<open>gsm_conn_write\<close> that returns \<open>gsmOK\<close>, on a connection
  whose write buffer is well formed and with \<open>btw\<close> bytes readable at \<open>data\<close>: the bytes
  handed to the dispatcher by the call (the send of step 1.1, the full-size chunks of step 2,
  the flush of step 4), in order, followed by the bytes left staged in the buffer, are the
  bytes that were staged before the call followed by the \<open>btw\<close> bytes of the input, with no
  gap, overlap or reordering. So the byte total is \<open>btw\<close> plus the number of bytes staged
  before the call, and it is \<open>btw\<close> when nothing was staged. The write buffer is well formed
  again afterwards.
\<close>

theorem gsm_conn_write_partitions_input:
  assumes "buff_ok w" and "btw \<le> length data"
    and "gsm_conn_write w c data btw flush ma = (gsmOK, ma', w')"
  shows "dispatched (new_events w w') @ staged w' = staged w @ take btw data
     \<and> length (dispatched (new_events w w')) + length (staged w') = length (staged w) + btw
     \<and> buff_ok w'"
proof -
  have "step_rel w w'" using step_rel_write [of w c data btw flush ma] assms(3) by simp
  then have tr: "trace w' = trace w @ new_events w w'"
    by (auto simp: step_rel_def dest: ext_new_events)
  have "dispatched (trace w') @ staged w' = dispatched (trace w) @ staged w @ take btw data"
    by (rule gsm_conn_write_cons(1) [OF assms])
  with tr have eq: "dispatched (new_events w w') @ staged w' = staged w @ take btw data"
    by simp
  then have "length (dispatched (new_events w w') @ staged w') = length (staged w @ take btw data)"
    by simp
  with assms(2) have "length (dispatched (new_events w w')) + length (staged w') = length (staged w) + btw"
    by simp
  with eq gsm_conn_write_cons(2) [OF assms] show ?thesis by simp
qed

theorem gsm_conn_write_partitions_input_witness:
  "buff_ok world0 \<and> staged world0 = []
   \<and> fst (gsm_conn_write world0 PTR [1, 2, 3, 4, 5, 6] 6 0 None) = gsmOK
   \<and> dispatched (new_events world0 (snd (snd (gsm_conn_write world0 PTR [1, 2, 3, 4, 5, 6] 6 0 None))))
       = [1, 2, 3, 4]
   \<and> staged (snd (snd (gsm_conn_write world0 PTR [1, 2, 3, 4, 5, 6] 6 0 None))) = [5, 6]
   \<and> dispatched (new_events world0 (snd (snd (gsm_conn_write world0 PTR [1, 2, 3, 4, 5, 6] 6 0 None))))
       @ staged (snd (snd (gsm_conn_write world0 PTR [1, 2, 3, 4, 5, 6] 6 0 None)))
       = [1, 2, 3, 4, 5, 6]"
  using gsm_conn_write_partitions_input [of world0 6 "[1, 2, 3, 4, 5, 6]" PTR 0 None
      "fst (snd (gsm_conn_write world0 PTR [1, 2, 3, 4, 5, 6] 6 0 None))"
      "snd (snd (gsm_conn_write world0 PTR [1, 2, 3, 4, 5, 6] 6 0 None))"]
  by (simp add: world0_defs buff_ok_def staged_def gsm_conn_write_def
      write_step1_def write_step2_unfold [of _ _ 6] write_step2_exit write_step3_def GSM_MEMCPY_def
      conn_send_closed gsm_mem_alloc_def Let_def new_events_def)

subsection \<open>The available capacity reported by a write\<close>

text \<open>
  Claim C6, as stated: on every return of \<open>gsm_conn_write\<close> with a non-null
  \<open>mem_available\<close>, the reported capacity is 0 when no buffer exists or its allocation
  failed, and every allocation failure shows as an error return or as success with
  capacity 0. It fails twice. The error returns leave \<open>*mem_available\<close> as the caller had
  it: with an allocator that fails, a write of one byte returns \<open>gsmERRMEM\<close>, the
  connection has no buffer, and the variable still holds 7. And a failed allocation of the
  command envelope in step 1.1 is absorbed: with one byte staged in a buffer of four and an
  allocator that refuses the first request only, a write of three bytes fills the buffer,
  the send of the four bytes fails for lack of an envelope and the buffer is freed, yet the
  call returns \<open>gsmOK\<close> and reports the capacity 4 of a fresh, empty buffer.
\<close>

theorem gsm_conn_write_failures_not_reported:
  "fst (gsm_conn_write world_nomem PTR [5] 1 0 (Some 7)) = gsmERRMEM
   \<and> buff (conn (snd (snd (gsm_conn_write world_nomem PTR [5] 1 0 (Some 7))))) = None
   \<and> fst (snd (gsm_conn_write world_nomem PTR [5] 1 0 (Some 7))) = Some 7
   \<and> fst (snd (gsm_conn_write world_nomem PTR [5] 1 0 (Some 7))) \<noteq> Some 0
   \<and> fst (gsm_conn_write world_envfail PTR [1, 2, 3] 3 0 (Some 7)) = gsmOK
   \<and> fst (snd (gsm_conn_write world_envfail PTR [1, 2, 3] 3 0 (Some 7))) = Some 4
   \<and> new_events world_envfail (snd (snd (gsm_conn_write world_envfail PTR [1, 2, 3] 3 0 (Some 7))))
       = [EvDispatch [9, 1, 2, 3] 1 0, EvMsgAllocFail, EvFree 0]
   \<and> staged (snd (snd (gsm_conn_write world_envfail PTR [1, 2, 3] 3 0 (Some 7)))) = []"
  by (simp add: world_nomem_def world_envfail_def world_staged_def world0_defs gsm_conn_write_def
      write_step1_def write_step2_exit write_step3_def gsm_mem_alloc_def gsm_mem_free_def
      GSM_MEMCPY_def conn_send_closed staged_def Let_def new_events_def)

text \<open>
  Claim C6, amended. For a call of \<open>gsm_conn_write\<close> with a non-null \<open>mem_available\<close>:
  when it returns \<open>gsmOK\<close>, the reported capacity is the \<open>size_t\<close> difference
  \<open>buff.len - buff.ptr\<close> if the connection has a buffer and 0 if it has none; when
  moreover the write buffer was well formed on entry and \<open>btw\<close> bytes are readable at
  \<open>data\<close>, it is well formed on return, so that the difference does not wrap and is the
  capacity minus the used length. When the call returns an error, \<open>*mem_available\<close> is
  not written. Whenever an allocation of a buffer by \<open>gsm_mem_alloc\<close> fails during the
  call, or an allocation of a command envelope fails after step 1, the call either returns
  \<open>gsmERRMEM\<close>, or returns \<open>gsmOK\<close> with no buffer and reports 0.
\<close>

theorem gsm_conn_write_mem_available:
  assumes wr: "gsm_conn_write w c data btw flush (Some old) = (r, ma, w')"
  shows "(r = gsmOK \<longrightarrow>
            ma = Some (if buff (conn w') \<noteq> None
                       then size_sub (SIZE_MAX w') (buff_len (conn w')) (buff_ptr (conn w'))
                       else 0))
     \<and> (r = gsmOK \<and> buff_ok w \<and> btw \<le> length data \<longrightarrow>
           buff_ok w'
           \<and> ma = Some (if buff (conn w') \<noteq> None
                        then buff_len (conn w') - buff_ptr (conn w') else 0))
     \<and> (r \<noteq> gsmOK \<longrightarrow> ma = Some old)
     \<and> (EvMemAllocFail \<in> set (new_events w w') \<longrightarrow>
           r = gsmERRMEM \<or> (r = gsmOK \<and> buff (conn w') = None \<and> ma = Some 0))
     \<and> (EvMsgAllocFail \<in> set (new_events (fst (write_step1 w data btw flush)) w') \<longrightarrow>
           r = gsmERRMEM \<or> (r = gsmOK \<and> buff (conn w') = None \<and> ma = Some 0))"
proof -
  let ?cap = "\<lambda>x. if buff (conn x) \<noteq> None
                  then size_sub (SIZE_MAX x) (buff_len (conn x)) (buff_ptr (conn x)) else 0"
  have wrapped: "r = gsmOK \<and> buff_ok w \<and> btw \<le> length data \<longrightarrow>
           buff_ok w'
           \<and> ?cap w' = (if buff (conn w') \<noteq> None
                        then buff_len (conn w') - buff_ptr (conn w') else 0)"
  proof (intro impI, elim conjE)
    assume ok: "r = gsmOK" and bo: "buff_ok w" and le: "btw \<le> length data"
    from wr ok have "gsm_conn_write w c data btw flush (Some old) = (gsmOK, ma, w')" by simp
    from gsm_conn_write_cons(2) [OF bo le this] have bo': "buff_ok w'" .
    then have "buff (conn w') \<noteq> None \<longrightarrow> buff_ptr (conn w') \<le> buff_len (conn w')"
      by (auto simp: buff_ok_def split: option.splits)
    with bo' show "buff_ok w'
           \<and> ?cap w' = (if buff (conn w') \<noteq> None
                        then buff_len (conn w') - buff_ptr (conn w') else 0)"
      by simp
  qed
  have main: "(r = gsmOK \<longrightarrow> ma = Some (?cap w'))
     \<and> (r \<noteq> gsmOK \<longrightarrow> ma = Some old)
     \<and> (EvMemAllocFail \<in> set (new_events w w') \<longrightarrow>
           r = gsmERRMEM \<or> (r = gsmOK \<and> buff (conn w') = None \<and> ma = Some 0))
     \<and> (EvMsgAllocFail \<in> set (new_events (fst (write_step1 w data btw flush)) w') \<longrightarrow>
           r = gsmERRMEM \<or> (r = gsmOK \<and> buff (conn w') = None \<and> ma = Some 0))"
  proof (cases "c = NULL")
    case True
    with wr have "r = gsmERR" "ma = Some old" "w' = w"
      by (auto simp: gsm_conn_write_def GSM_ASSERT_fail_def)
    moreover have "ext no_alloc_fail w (fst (write_step1 w data btw flush))"
      by (rule naf_write_step1)
    then have "length (trace w) \<le> length (trace (fst (write_step1 w data btw flush)))"
      by (auto simp: ext_def)
    ultimately show ?thesis by (simp add: new_events_def)
  next
    case False
    obtain w1 d1 btw1 where s1: "write_step1 w data btw flush = (w1, d1, btw1)"
      by (cases "write_step1 w data btw flush")
    have e1: "ext no_alloc_fail w w1" using naf_write_step1 [of w data btw flush] s1 by simp
    show ?thesis
    proof (cases "write_step2 w1 d1 btw1")
      case (Inl x)
      then obtain r2 w2 where i2: "write_step2 w1 d1 btw1 = Inl (r2, w2)" by (cases x) auto
      with wr False s1 write_step2_Inl [OF i2] show ?thesis
        by (auto simp: gsm_conn_write_def)
    next
      case (Inr y)
      then obtain w2 d2 btw2 where s2: "write_step2 w1 d1 btw1 = Inr (w2, d2, btw2)"
        by (cases y) auto
      have e2: "ext no_alloc_fail w1 w2" by (rule naf_write_step2 [OF s2])
      have m2: "ext no_msg_fail w1 w2" by (rule nmf_write_step2 [OF s2])
      show ?thesis
      proof (cases "write_step3 w2 d2 btw2")
        case (Inl x)
        then obtain r3 w3 where i3: "write_step3 w2 d2 btw2 = Inl (r3, w3)" by (cases x) auto
        with wr False s1 s2 write_step3_Inl [OF i3] show ?thesis
          by (auto simp: gsm_conn_write_def)
      next
        case (Inr w3)
        note s3 = this
        have m3: "ext no_msg_fail w2 w3" by (rule nmf_write_step3 [OF s3])
        have res: "r = gsmOK"
          and w': "w' = (if flush \<noteq> 0 \<and> buff (conn w3) \<noteq> None then snd (flush_buff w3 c) else w3)"
          and ma: "ma = Some (?cap w')"
          using wr False s1 s2 s3 by (auto simp: gsm_conn_write_def Let_def)
        have gone: "buff (conn w') = None \<and> ma = Some 0" if "w' \<noteq> w3"
        proof -
          from that w' have "w' = snd (flush_buff w3 c)" by (simp split: if_splits)
          with False have nb: "buff (conn w') = None" by (simp add: flush_buff_drops_buffer)
          from ma have "ma = Some 0" unfolding nb by simp
          with nb show ?thesis by simp
        qed
        have "ext no_alloc_fail w w'" if nb: "buff (conn w3) \<noteq> None"
        proof -
          have e3: "ext no_alloc_fail w2 w3" by (rule naf_write_step3 [OF s3 nb])
          have e4: "ext no_alloc_fail w3 w'" using w' by (simp add: naf_flush_buff ext_refl)
          from e1 e2 e3 e4 show ?thesis by (blast intro: ext_trans)
        qed
        note naf = this
        have mem: "buff (conn w') = None \<and> ma = Some 0"
          if mem: "EvMemAllocFail \<in> set (new_events w w')"
        proof -
          have nb3: "buff (conn w3) = None"
          proof (rule ccontr)
            assume "buff (conn w3) \<noteq> None"
            then have "ext no_alloc_fail w w'" by (rule naf)
            then have "list_all no_alloc_fail (new_events w w')" by (simp add: ext_new_events)
            with mem show False by (auto simp: list_all_iff no_alloc_fail_def)
          qed
          with w' have "w' = w3" by simp
          with nb3 have nb: "buff (conn w') = None" by simp
          from ma have "ma = Some 0" unfolding nb by simp
          with nb show ?thesis by simp
        qed
        have msg: "buff (conn w') = None \<and> ma = Some 0"
          if msg: "EvMsgAllocFail \<in> set (new_events w1 w')"
        proof (rule gone, rule notI)
          assume "w' = w3"
          with m2 m3 have "ext no_msg_fail w1 w'" by (blast intro: ext_trans)
          then have "list_all no_msg_fail (new_events w1 w')" by (simp add: ext_new_events)
          with msg show False by (auto simp: list_all_iff no_msg_fail_def)
        qed
        have "r \<noteq> gsmOK \<longrightarrow> ma = Some old" using res by simp
        with mem msg res ma s1 show ?thesis by auto
      qed
    qed
  qed
  from main wrapped show ?thesis by auto
qed

theorem gsm_conn_write_mem_available_witness:
  "fst (gsm_conn_write world0 PTR [5] 1 0 (Some 7)) = gsmOK
   \<and> buff_ok world0
   \<and> buff_ok (snd (snd (gsm_conn_write world0 PTR [5] 1 0 (Some 7))))
   \<and> buff (conn (snd (snd (gsm_conn_write world0 PTR [5] 1 0 (Some 7))))) = Some 0
   \<and> fst (snd (gsm_conn_write world0 PTR [5] 1 0 (Some 7))) = Some 3
   \<and> fst (gsm_conn_write world_nomem PTR [] 0 0 (Some 7)) = gsmOK
   \<and> EvMemAllocFail \<in> set (new_events world_nomem
        (snd (snd (gsm_conn_write world_nomem PTR [] 0 0 (Some 7)))))
   \<and> fst (snd (gsm_conn_write world_nomem PTR [] 0 0 (Some 7))) = Some 0
   \<and> fst (gsm_conn_write world_oneshot PTR [5] 1 1 (Some 7)) = gsmOK
   \<and> EvMsgAllocFail \<in> set (new_events (fst (write_step1 world_oneshot [5] 1 1))
        (snd (snd (gsm_conn_write world_oneshot PTR [5] 1 1 (Some 7)))))
   \<and> fst (snd (gsm_conn_write world_oneshot PTR [5] 1 1 (Some 7))) = Some 0"
  using gsm_conn_write_mem_available [of world0 PTR "[5]" 1 0 7
      "fst (gsm_conn_write world0 PTR [5] 1 0 (Some 7))"
      "fst (snd (gsm_conn_write world0 PTR [5] 1 0 (Some 7)))"
      "snd (snd (gsm_conn_write world0 PTR [5] 1 0 (Some 7)))"]
    gsm_conn_write_mem_available [of world_nomem PTR "[]" 0 0 7
      "fst (gsm_conn_write world_nomem PTR [] 0 0 (Some 7))"
      "fst (snd (gsm_conn_write world_nomem PTR [] 0 0 (Some 7)))"
      "snd (snd (gsm_conn_write world_nomem PTR [] 0 0 (Some 7)))"]
    gsm_conn_write_mem_available [of world_oneshot PTR "[5]" 1 1 7
      "fst (gsm_conn_write world_oneshot PTR [5] 1 1 (Some 7))"
      "fst (snd (gsm_conn_write world_oneshot PTR [5] 1 1 (Some 7)))"
      "snd (snd (gsm_conn_write world_oneshot PTR [5] 1 1 (Some 7)))"]
  by (simp add: world_nomem_def world_oneshot_def world0_defs flush_buff_data gsm_conn_write_def
      write_step1_def write_step2_exit write_step3_def gsm_mem_alloc_def gsm_mem_free_def
      GSM_MEMCPY_def conn_send_closed buff_ok_def Let_def new_events_def)

end
